theory Spec2Isabelle
  imports Main "HOL-Library.Word"
begin

section \<open>Values and strings of the source language\<close>

text \<open>
  The program is JavaScript. Its strings are sequences of 16-bit code units, so a string
  is modelled as a list of 16-bit words; \<open>js\<close> embeds an ASCII literal.
\<close>

type_synonym jsstring = "16 word list"

definition js :: "string \<Rightarrow> jsstring" where
  "js s = map of_char s"

text \<open>
  The scalar values a warehouse row can hold. \<open>Undefined\<close> is also what reading an absent
  column gives. \<open>Num\<close> holds an integer that JavaScript prints in plain decimal notation
  (below \<open>10\<^sup>2\<^sup>1\<close> in magnitude). Other numbers and objects are outside the model.
\<close>

datatype jsval = Undefined | Null | Bool bool | Num int | Str jsstring

function digits :: "nat \<Rightarrow> jsstring" where
  "digits n = (if n < 10 then [48 + of_nat n] else digits (n div 10) @ [48 + of_nat (n mod 10)])"
  by pat_completeness auto
termination
  by (relation "measure (\<lambda>n. n)") auto

declare digits.simps [simp del]

text \<open>\<open>String(v)\<close> of the source.\<close>

fun String :: "jsval \<Rightarrow> jsstring" where
  "String Undefined = js ''undefined''"
| "String Null = js ''null''"
| "String (Bool b) = (if b then js ''true'' else js ''false'')"
| "String (Num i) = (if i < 0 then 45 # digits (nat (- i)) else digits (nat i))"
| "String (Str s) = s"

text \<open>
  \<open>String.prototype.trim\<close> removes the code units of the WhiteSpace and LineTerminator
  productions of ECMAScript from both ends.
\<close>

definition is_whitespace :: "16 word \<Rightarrow> bool" where
  "is_whitespace c =
     (c \<in> {0x0009, 0x000A, 0x000B, 0x000C, 0x000D, 0x0020, 0x00A0, 0x1680,
           0x2028, 0x2029, 0x202F, 0x205F, 0x3000, 0xFEFF}
      \<or> (0x2000 \<le> c \<and> c \<le> 0x200A))"

definition trim :: "jsstring \<Rightarrow> jsstring" where
  "trim s = rev (dropWhile is_whitespace (rev (dropWhile is_whitespace s)))"

definition endsWith :: "jsstring \<Rightarrow> jsstring \<Rightarrow> bool" where
  "endsWith s t = (length t \<le> length s \<and> drop (length s - length t) s = t)"

section \<open>Rows, property mappings and the record mapper\<close>

text \<open>
  A row and a property mapping are objects with string keys: association lists, read with
  \<open>row_get\<close> (an absent key reads as \<open>Undefined\<close>). The keys of an object are distinct; the
  order of the entries plays no role in what follows.
\<close>

type_synonym row = "(jsstring \<times> jsval) list"
type_synonym props = "(jsstring \<times> jsval) list"

definition row_get :: "row \<Rightarrow> jsstring \<Rightarrow> jsval" where
  "row_get r k = (case map_of r k of None \<Rightarrow> Undefined | Some v \<Rightarrow> v)"

text \<open>
  \<open>clean\<close> of the source, a closure over \<open>dropBlanks\<close>:
  \<^verbatim>\<open>
  const clean = (obj) => {
    const entries = Object.entries(obj).filter(([, v]) => {
      if (v === undefined || v === null) return false;
      if (!dropBlanks) return true;
      return String(v).trim() !== "";
    });
    return Object.fromEntries(entries);
  };
  \<close>
\<close>

definition keep_value :: "bool \<Rightarrow> jsval \<Rightarrow> bool" where
  "keep_value dropBlanks v =
     (if v = Undefined \<or> v = Null then False
      else if \<not> dropBlanks then True
      else trim (String v) \<noteq> [])"

definition clean :: "bool \<Rightarrow> props \<Rightarrow> props" where
  "clean dropBlanks obj = filter (\<lambda>(k, v). keep_value dropBlanks v) obj"

section \<open>Collaborators, configuration and state\<close>

text \<open>
  What a rejected promise carries, as far as the program reads it: the serialised
  \<open>e.response.body\<close> when it is present and truthy, \<open>e.message\<close> (empty when absent) and
  \<open>String(e)\<close>.
\<close>

record thrown =
  response_body :: "jsstring option"
  message :: jsstring
  to_string :: jsstring

text \<open>
  The CRM client. Each update entry point takes the number of update calls issued before
  this one, so that the outcome of a call may depend on the history; it answers \<open>None\<close>
  when the call resolves and \<open>Some e\<close> when it rejects with \<open>e\<close>.
\<close>

record hubspot_client =
  contacts_update :: "nat \<Rightarrow> jsstring \<Rightarrow> props \<Rightarrow> thrown option"
  companies_update :: "nat \<Rightarrow> jsstring \<Rightarrow> props \<Rightarrow> thrown option"
  deals_update :: "nat \<Rightarrow> jsstring \<Rightarrow> props \<Rightarrow> thrown option"
  tickets_update :: "nat \<Rightarrow> jsstring \<Rightarrow> props \<Rightarrow> thrown option"
  objects_update :: "nat \<Rightarrow> jsstring \<Rightarrow> jsstring \<Rightarrow> props \<Rightarrow> thrown option"

text \<open>
  A query job answers \<open>getQueryResults\<close> for a page size and a page token with the rows of
  the page and the token of the response (\<open>None\<close> when \<open>resp?.pageToken\<close> is undefined), or
  throws. The warehouse client turns a query text into a job, or throws.
\<close>

type_synonym job = "nat \<Rightarrow> jsstring option \<Rightarrow> thrown + (row list \<times> jsstring option)"

record bigquery_client =
  createQueryJob :: "jsstring \<Rightarrow> thrown + job"

datatype property_arg =
    PropertyMissing
  | PropertyString jsstring
  | PropertyObject "(jsstring \<times> jsstring) list"

text \<open>
  The argument object of the run. A string argument that is absent is represented by the
  empty string: the program only tests these arguments for truthiness before it uses them,
  and the empty string is falsy as \<open>undefined\<close> and \<open>null\<close> are. The flag \<open>apply\<close> of the
  source is \<open>apply_mode\<close> here. The sizes are natural numbers.
\<close>

record config =
  object :: jsstring
  sql :: jsstring
  property :: property_arg
  column_name :: jsstring
  matching_id :: jsstring
  matchKeyType :: jsstring
  apply_mode :: bool
  pageSize :: nat
  updateBatchSize :: nat
  updateConcurrency :: nat
  dropBlanks :: bool
  checkpointPath :: jsstring
  skipAlreadyProcessed :: bool
  outputCsvPath :: jsstring
  hubspotClient :: "hubspot_client option"
  bigqueryClient :: "bigquery_client option"

datatype audit_status = DRY_RUN | UPDATED | ERROR

text \<open>
  One line of the audit CSV, before serialisation, and one entry of the summary's error
  list. \<open>properties_json\<close> holds the properties that the source passes to
  \<open>JSON.stringify\<close>.
\<close>

record audit_row =
  matchVal :: jsstring
  status :: audit_status
  properties_json :: props
  error :: jsstring

record error_entry =
  e_matchVal :: jsstring
  e_error :: jsstring
  e_properties :: props

text \<open>
  The content of the checkpoint file as \<open>loadCheckpoint\<close> reads it: text that does not
  parse to an array, or an array, given by the \<open>String\<close> images of its elements.
\<close>

datatype file_content = NotJsonArray | JsonArray "jsstring list"

type_synonym pending = "jsstring \<times> props"

text \<open>
  The state of a run: the variables of \<open>syncHubSpotPropertiesFromBigQuery\<close> together with
  the part of the world it acts on. \<open>processed\<close> is a JavaScript \<open>Set\<close>, kept in insertion
  order. \<open>checkpoint_file\<close> and \<open>csv_file\<close> are the files at \<open>checkpointPath\<close> and
  \<open>outputCsvPath\<close> (\<open>None\<close>: no such file; the two paths are different files), \<open>sql_files\<close>
  answers \<open>readFileSync\<close> on a query file (\<open>None\<close>: it throws), and \<open>hs_calls\<close> is the log of
  the update calls issued to the CRM. Writing a file is taken to succeed.
\<close>

record run_state =
  processed :: "jsstring list"
  totalFetched :: nat
  totalAttempted :: nat
  totalUpdated :: nat
  totalSkipped :: nat
  errors :: "error_entry list"
  checkpoint_file :: "file_content option"
  csv_file :: "audit_row list option"
  sql_files :: "jsstring \<Rightarrow> jsstring option"
  hs_calls :: "pending list"

datatype run_error =
    MissingRequiredArg string
  | UnsupportedMatchKeyType
  | SqlFileUnreadable
  | QuerySubmissionFailed thrown
  | PageFetchFailed thrown

section \<open>Helpers of the source\<close>

text \<open>\<open>Set.prototype.add\<close> and \<open>new Set(array)\<close>.\<close>

definition set_add :: "jsstring \<Rightarrow> jsstring list \<Rightarrow> jsstring list" where
  "set_add x s = (if x \<in> set s then s else s @ [x])"

definition new_Set :: "jsstring list \<Rightarrow> jsstring list" where
  "new_Set arr = fold set_add arr []"

text \<open>
  \<^verbatim>\<open>
  function loadCheckpoint(checkpointPath) {
    try {
      if (!checkpointPath) return new Set();
      if (!fs.existsSync(checkpointPath)) return new Set();
      const raw = fs.readFileSync(checkpointPath, "utf8");
      const arr = JSON.parse(raw);
      if (!Array.isArray(arr)) return new Set();
      return new Set(arr.map(String));
    } catch { return new Set(); }
  }
  \<close>
\<close>

definition loadCheckpoint :: "jsstring \<Rightarrow> run_state \<Rightarrow> jsstring list" where
  "loadCheckpoint path st =
     (if path = [] then []
      else case checkpoint_file st of
             None \<Rightarrow> []
           | Some NotJsonArray \<Rightarrow> []
           | Some (JsonArray arr) \<Rightarrow> new_Set arr)"

text \<open>
  \<^verbatim>\<open>
  function saveCheckpoint(checkpointPath, set) {
    if (!checkpointPath) return;
    ensureDirForFile(checkpointPath);
    const arr = Array.from(set.values());
    fs.writeFileSync(checkpointPath, JSON.stringify(arr, null, 2), "utf8");
  }
  \<close>
\<close>

definition saveCheckpoint :: "jsstring \<Rightarrow> jsstring list \<Rightarrow> run_state \<Rightarrow> run_state" where
  "saveCheckpoint path s st =
     (if path = [] then st else st\<lparr>checkpoint_file := Some (JsonArray s)\<rparr>)"

text \<open>
  \<open>writeCsvAppend\<close>: the rows go to the end of the file, which is created (with its
  header line) when it does not exist.
\<close>

definition writeCsvAppend :: "audit_row list \<Rightarrow> run_state \<Rightarrow> run_state" where
  "writeCsvAppend rows st =
     st\<lparr>csv_file := Some ((case csv_file st of None \<Rightarrow> [] | Some old \<Rightarrow> old) @ rows)\<rparr>"

text \<open>
  \<^verbatim>\<open>
  async function fetchBigQueryPage(job, pageToken, pageSize) {
    const opts = { maxResults: pageSize };
    if (pageToken) opts.pageToken = pageToken;
    const [rows, , resp] = await job.getQueryResults(opts);
    return { rows, nextPageToken: resp?.pageToken || null };
  }
  \<close>
\<close>

definition fetchBigQueryPage ::
  "job \<Rightarrow> jsstring option \<Rightarrow> nat \<Rightarrow> thrown + (row list \<times> jsstring option)" where
  "fetchBigQueryPage jb pageToken pgSize =
     (case jb pgSize (case pageToken of None \<Rightarrow> None
                                       | Some t \<Rightarrow> (if t = [] then None else Some t)) of
        Inl e \<Rightarrow> Inl e
      | Inr (rows, tok) \<Rightarrow>
          Inr (rows, (case tok of None \<Rightarrow> None
                                | Some t \<Rightarrow> (if t = [] then None else Some t))))"

text \<open>
  \<open>updateSingleByObjectType\<close>: a closed dispatch on the object type name; the last
  argument is the number of update calls issued before.
\<close>

definition updateSingleByObjectType ::
  "hubspot_client \<Rightarrow> jsstring \<Rightarrow> jsstring \<Rightarrow> props \<Rightarrow> nat \<Rightarrow> thrown option" where
  "updateSingleByObjectType hc obj ident properties n =
     (if obj = js ''contacts'' then contacts_update hc n ident properties
      else if obj = js ''companies'' then companies_update hc n ident properties
      else if obj = js ''deals'' then deals_update hc n ident properties
      else if obj = js ''tickets'' then tickets_update hc n ident properties
      else objects_update hc n obj ident properties)"

section \<open>The run\<close>

text \<open>The error text that a rejected update is recorded with:
  \<^verbatim>\<open>e?.response?.body ? JSON.stringify(e.response.body) : (e?.message || String(e))\<close>\<close>

definition errText :: "thrown \<Rightarrow> jsstring" where
  "errText e =
     (case response_body e of
        Some body \<Rightarrow> body
      | None \<Rightarrow> (if message e \<noteq> [] then message e else to_string e))"

text \<open>
  The identifier of a row:
  \<^verbatim>\<open>
  const idRaw = r?.[matching_id];
  const id = idRaw === undefined || idRaw === null ? "" : String(idRaw).trim();
  \<close>
\<close>

definition row_id :: "config \<Rightarrow> row \<Rightarrow> jsstring" where
  "row_id cfg r =
     (let idRaw = row_get r (matching_id cfg)
      in if idRaw = Undefined \<or> idRaw = Null then [] else trim (String idRaw))"

text \<open>
  The properties of a row:
  \<^verbatim>\<open>
  if (multiMap) {
    const mapped = {};
    for (const [hsProp, bqCol] of Object.entries(property)) mapped[hsProp] = r?.[bqCol];
    props = clean(mapped);
  } else {
    props = clean({ [property]: r?.[column_name] });
  }
  \<close>
\<close>

definition row_props :: "config \<Rightarrow> row \<Rightarrow> props" where
  "row_props cfg r =
     (case property cfg of
        PropertyObject entries \<Rightarrow>
          clean (dropBlanks cfg) (map (\<lambda>(hsProp, bqCol). (hsProp, row_get r bqCol)) entries)
      | PropertyString p \<Rightarrow> clean (dropBlanks cfg) [(p, row_get r (column_name cfg))]
      | PropertyMissing \<Rightarrow>
          clean (dropBlanks cfg) [(js ''undefined'', row_get r (column_name cfg))])"

text \<open>
  The body of the loop \<open>for (const r of rows)\<close> that builds the updates of a page; the
  accumulator is the state and \<open>batchUpdates\<close>.
\<close>

definition build_update :: "config \<Rightarrow> row \<Rightarrow> run_state \<times> pending list \<Rightarrow> run_state \<times> pending list" where
  "build_update cfg r acc =
     (let st = fst acc; batchUpdates = snd acc; ident = row_id cfg r
      in if ident = [] then (st, batchUpdates)
         else if skipAlreadyProcessed cfg \<and> ident \<in> set (processed st)
         then (st\<lparr>totalSkipped := totalSkipped st + 1\<rparr>, batchUpdates)
         else if row_props cfg r = []
         then (st\<lparr>totalSkipped := totalSkipped st + 1,
                   processed := set_add ident (processed st)\<rparr>, batchUpdates)
         else (st, batchUpdates @ [(ident, row_props cfg r)]))"

definition build_updates :: "config \<Rightarrow> row list \<Rightarrow> run_state \<Rightarrow> run_state \<times> pending list" where
  "build_updates cfg rows st = fold (build_update cfg) rows (st, [])"

text \<open>
  The worker function that the apply branch hands to \<open>runWithConcurrency\<close>; the
  accumulator is the state and \<open>waveCsvRows\<close>. The update call is logged in \<open>hs_calls\<close>
  when it is issued.
\<close>

definition worker :: "config \<Rightarrow> hubspot_client \<Rightarrow> pending \<Rightarrow> run_state \<times> audit_row list \<Rightarrow> run_state \<times> audit_row list" where
  "worker cfg hc w acc =
     (let st = fst acc; waveCsvRows = snd acc;
          st1 = st\<lparr>totalAttempted := totalAttempted st + 1,
                   hs_calls := hs_calls st @ [w]\<rparr>
      in case updateSingleByObjectType hc (object cfg) (fst w) (snd w) (length (hs_calls st)) of
           None \<Rightarrow>
             (st1\<lparr>totalUpdated := totalUpdated st1 + 1,
                  processed := set_add (fst w) (processed st1)\<rparr>,
              waveCsvRows @ [\<lparr>matchVal = fst w, status = UPDATED,
                               properties_json = snd w, error = []\<rparr>])
         | Some e \<Rightarrow>
             (st1\<lparr>errors := errors st1 @ [\<lparr>e_matchVal = fst w, e_error = errText e,
                                           e_properties = snd w\<rparr>],
                  processed := set_add (fst w) (processed st1)\<rparr>,
              waveCsvRows @ [\<lparr>matchVal = fst w, status = ERROR,
                               properties_json = snd w, error = errText e\<rparr>]))"

text \<open>
  \<open>runWithConcurrency\<close> as a function from the state before the wave to the state after
  it. The pool has \<open>concurrency\<close> workers; with none, no item is taken. Otherwise every
  item is taken once, and the calls are issued in the order of the items, because the
  shared index is read and incremented in one synchronous step. The order in which the
  calls of one wave complete is not fixed by the program: the model records the outcomes
  in the order of the items. The transition system of the pool itself is in the section
  on the worker pool below.
\<close>

definition runWithConcurrency :: "'a list \<Rightarrow> nat \<Rightarrow> ('a \<Rightarrow> 's \<Rightarrow> 's) \<Rightarrow> 's \<Rightarrow> 's" where
  "runWithConcurrency items concurrency workerFn s =
     (if concurrency = 0 then s else fold workerFn items s)"

text \<open>The body of the dry-run loop \<open>for (const w of wave)\<close>.\<close>

definition dry_run_item :: "config \<Rightarrow> pending \<Rightarrow> run_state \<Rightarrow> run_state" where
  "dry_run_item cfg w st =
     (let st1 = (if outputCsvPath cfg \<noteq> []
                 then writeCsvAppend [\<lparr>matchVal = fst w, status = DRY_RUN,
                                        properties_json = snd w, error = []\<rparr>] st
                 else st)
      in st1\<lparr>processed := set_add (fst w) (processed st1)\<rparr>)"

text \<open>One non-empty wave: the dry-run branch, or the apply branch with its two flushes.\<close>

definition process_wave :: "config \<Rightarrow> hubspot_client \<Rightarrow> pending list \<Rightarrow> run_state \<Rightarrow> run_state" where
  "process_wave cfg hc wave st =
     (if \<not> apply_mode cfg then
        (let st1 = st\<lparr>totalAttempted := totalAttempted st + length wave\<rparr>;
             st2 = fold (dry_run_item cfg) wave st1
         in saveCheckpoint (checkpointPath cfg) (processed st2) st2)
      else
        (let res = runWithConcurrency wave (updateConcurrency cfg) (worker cfg hc) (st, []);
             st1 = fst res; waveCsvRows = snd res;
             st2 = (if outputCsvPath cfg \<noteq> [] \<and> waveCsvRows \<noteq> []
                    then writeCsvAppend waveCsvRows st1 else st1)
         in saveCheckpoint (checkpointPath cfg) (processed st2) st2))"

text \<open>\<open>Array.prototype.slice(i, j)\<close> for \<open>0 \<le> i \<le> j\<close>.\<close>

definition slice :: "'a list \<Rightarrow> nat \<Rightarrow> nat \<Rightarrow> 'a list" where
  "slice xs i j = take (j - i) (drop i xs)"

text \<open>
  The loop over the waves of a page:
  \<^verbatim>\<open>
  for (let i = 0; i < batchUpdates.length; i += updateBatchSize) {
    const wave = batchUpdates.slice(i, i + updateBatchSize);
    if (wave.length === 0) continue;
    ...
  }
  \<close>
  With \<open>updateBatchSize = 0\<close> the wave is empty and the index does not advance: the loop
  never exits, which is the result \<open>None\<close>.
\<close>

function wave_loop :: "config \<Rightarrow> hubspot_client \<Rightarrow> pending list \<Rightarrow> nat \<Rightarrow> run_state \<Rightarrow> run_state option" where
  "wave_loop cfg hc batchUpdates i st =
     (if i < length batchUpdates then
        (let wave = slice batchUpdates i (i + updateBatchSize cfg)
         in if updateBatchSize cfg = 0 then None
            else if wave = [] then wave_loop cfg hc batchUpdates (i + updateBatchSize cfg) st
            else wave_loop cfg hc batchUpdates (i + updateBatchSize cfg)
                   (process_wave cfg hc wave st))
      else Some st)"
  by pat_completeness auto
termination
  by (relation "measure (\<lambda>(cfg, hc, batchUpdates, i, st). length batchUpdates - i)") auto

declare wave_loop.simps [simp del]

text \<open>
  What the page loop does with a non-empty page: the updates of the page are built, then
  dispatched in waves.
\<close>

definition process_page :: "config \<Rightarrow> hubspot_client \<Rightarrow> row list \<Rightarrow> run_state \<Rightarrow> run_state option" where
  "process_page cfg hc rows st =
     (let scanned = build_updates cfg rows st
      in wave_loop cfg hc (snd scanned) 0 (fst scanned))"

text \<open>
  The loop over the pages:
  \<^verbatim>\<open>
  while (true) {
    const { rows, nextPageToken } = await fetchBigQueryPage(job, pageToken, pageSize);
    pageToken = nextPageToken;
    totalFetched += rows.length;
    if (rows.length === 0) break;
    ...
    if (!pageToken) break; // no more pages
  }
  \<close>
  It runs for as long as the job returns non-empty pages with a token, so it takes fuel:
  the number of pages it may fetch. \<open>None\<close> is a run that has not returned; a page fetch
  that throws ends the run with that error.
\<close>

fun page_loop :: "nat \<Rightarrow> config \<Rightarrow> hubspot_client \<Rightarrow> job \<Rightarrow> jsstring option \<Rightarrow> run_state \<Rightarrow> (run_error + run_state) option" where
  "page_loop 0 cfg hc jb pageToken st = None"
| "page_loop (Suc fuel) cfg hc jb pageToken st =
     (case fetchBigQueryPage jb pageToken (pageSize cfg) of
        Inl e \<Rightarrow> Some (Inl (PageFetchFailed e))
      | Inr (rows, nextPageToken) \<Rightarrow>
          (let st1 = st\<lparr>totalFetched := totalFetched st + length rows\<rparr>
           in if rows = [] then Some (Inr st1)
              else (case process_page cfg hc rows st1 of
                      None \<Rightarrow> None
                    | Some st3 \<Rightarrow>
                        (if nextPageToken = None then Some (Inr st3)
                         else page_loop fuel cfg hc jb nextPageToken st3))))"

text \<open>
  The variables of a run at its start, in the world it starts in:
  \<open>processed = loadCheckpoint(checkpointPath)\<close>, the counters at zero, no errors.
\<close>

definition initial_state :: "config \<Rightarrow> run_state \<Rightarrow> run_state" where
  "initial_state cfg world =
     world\<lparr>processed := loadCheckpoint (checkpointPath cfg) world,
           totalFetched := 0, totalAttempted := 0, totalUpdated := 0,
           totalSkipped := 0, errors := []\<rparr>"

text \<open>
  The run. Its argument state gives the world it starts in (the files and the call
  log). The result is the state at the \<open>return\<close>, from which \<open>run_summary\<close> reads the
  object that the source returns; a thrown error is \<open>Inl\<close>.
\<close>

definition syncHubSpotPropertiesFromBigQuery :: "nat \<Rightarrow> config \<Rightarrow> run_state \<Rightarrow> (run_error + run_state) option" where
  "syncHubSpotPropertiesFromBigQuery fuel cfg world =
     (if object cfg = [] then Some (Inl (MissingRequiredArg ''object''))
      else if sql cfg = [] then Some (Inl (MissingRequiredArg ''sql''))
      else if property cfg = PropertyMissing \<or> property cfg = PropertyString []
      then Some (Inl (MissingRequiredArg ''property''))
      else if matching_id cfg = [] then Some (Inl (MissingRequiredArg ''matching_id''))
      else case hubspotClient cfg of
        None \<Rightarrow> Some (Inl (MissingRequiredArg ''hubspotClient''))
      | Some hc \<Rightarrow>
      (case bigqueryClient cfg of
        None \<Rightarrow> Some (Inl (MissingRequiredArg ''bigqueryClient''))
      | Some bq \<Rightarrow>
      (if matchKeyType cfg \<noteq> js ''id'' then Some (Inl UnsupportedMatchKeyType)
       else if (case property cfg of PropertyObject entries \<Rightarrow> False | _ \<Rightarrow> True)
               \<and> column_name cfg = []
       then Some (Inl (MissingRequiredArg ''column_name''))
       else case (if endsWith (trim (sql cfg)) (js ''.sql'') then sql_files world (sql cfg)
                  else Some (sql cfg)) of
         None \<Rightarrow> Some (Inl SqlFileUnreadable)
       | Some query \<Rightarrow>
           (case createQueryJob bq query of
              Inl e \<Rightarrow> Some (Inl (QuerySubmissionFailed e))
            | Inr jb \<Rightarrow> page_loop fuel cfg hc jb None (initial_state cfg world)))))"

record summary =
  fetched :: nat
  attempted :: nat
  updated :: nat
  skipped :: nat
  summary_errors :: "error_entry list"
  summary_checkpointPath :: jsstring
  summary_outputCsvPath :: "jsstring option"
  summary_note :: string

definition run_summary :: "config \<Rightarrow> run_state \<Rightarrow> summary" where
  "run_summary cfg st =
     \<lparr>fetched = totalFetched st, attempted = totalAttempted st, updated = totalUpdated st,
      skipped = totalSkipped st, summary_errors = errors st,
      summary_checkpointPath = checkpointPath cfg,
      summary_outputCsvPath = (if outputCsvPath cfg = [] then None else Some (outputCsvPath cfg)),
      summary_note = (if apply_mode cfg then ''Executed updates.'' else ''Dry run only.'')\<rparr>"

section \<open>The worker pool\<close>

text \<open>
  \<^verbatim>\<open>
  async function runWithConcurrency(items, concurrency, workerFn) {
    let idx = 0;
    const workers = Array.from({ length: concurrency }, async () => {
      while (true) {
        const i = idx++;
        if (i >= items.length) break;
        await workerFn(items[i], i);
      }
    });
    await Promise.all(workers);
  }
  \<close>
  Execution is single-threaded and cooperative: a worker runs from one suspension point
  to the next without interruption. A worker is at the head of its loop, suspended at
  the \<open>await\<close> on the call for item \<open>i\<close>, or has left the loop. The pool records the shared
  index and two logs: the items whose call was started and the items whose call has
  completed.
\<close>

datatype worker_pc = AtLoopHead | Awaiting nat | Exited

record pool =
  idx :: nat
  workers :: "worker_pc list"
  started :: "nat list"
  finished :: "nat list"

definition pool_init :: "nat \<Rightarrow> pool" where
  "pool_init concurrency =
     \<lparr>idx = 0, workers = replicate concurrency AtLoopHead, started = [], finished = []\<rparr>"

text \<open>
  Worker \<open>w\<close> runs to its next suspension point, for \<open>n\<close> items: from the head of the loop
  it reads and increments the index, then leaves the loop or starts the call for the
  item and suspends; from the \<open>await\<close> its call completes and it is back at the head.
\<close>

definition worker_step :: "nat \<Rightarrow> nat \<Rightarrow> pool \<Rightarrow> pool" where
  "worker_step n w p =
     (if w < length (workers p) then
        (case workers p ! w of
           AtLoopHead \<Rightarrow>
             (let i = idx p
              in if i \<ge> n then p\<lparr>idx := i + 1, workers := (workers p)[w := Exited]\<rparr>
                 else p\<lparr>idx := i + 1, workers := (workers p)[w := Awaiting i],
                        started := started p @ [i]\<rparr>)
         | Awaiting i \<Rightarrow>
             p\<lparr>workers := (workers p)[w := AtLoopHead], finished := finished p @ [i]\<rparr>
         | Exited \<Rightarrow> p)
      else p)"

text \<open>
  A schedule is the sequence of workers that the event loop resumes; every execution of
  the pool is \<open>pool_exec\<close> of some schedule. The calls in flight are those started and not
  yet completed.
\<close>

definition pool_exec :: "nat \<Rightarrow> nat \<Rightarrow> nat list \<Rightarrow> pool" where
  "pool_exec n concurrency schedule = fold (worker_step n) schedule (pool_init concurrency)"

definition in_flight :: "pool \<Rightarrow> nat list" where
  "in_flight p = filter (\<lambda>i. i \<notin> set (finished p)) (started p)"

section \<open>Notions used in the statements\<close>

text \<open>
  The identifiers held by the checkpoint file of a run (none when the run has no
  checkpoint path, or the file is absent or does not hold an array).
\<close>

definition stored_ids :: "config \<Rightarrow> run_state \<Rightarrow> jsstring set" where
  "stored_ids cfg st =
     (if checkpointPath cfg = [] then {}
      else case checkpoint_file st of
             None \<Rightarrow> {}
           | Some NotJsonArray \<Rightarrow> {}
           | Some (JsonArray arr) \<Rightarrow> set arr)"

text \<open>
  The rows that the page loop reads from a job, in order: it stops at a fetch that
  throws, after an empty page and after a page that comes without a token.
\<close>

fun row_stream :: "nat \<Rightarrow> nat \<Rightarrow> job \<Rightarrow> jsstring option \<Rightarrow> row list" where
  "row_stream 0 pgSize jb pageToken = []"
| "row_stream (Suc fuel) pgSize jb pageToken =
     (case fetchBigQueryPage jb pageToken pgSize of
        Inl e \<Rightarrow> []
      | Inr (rows, nextPageToken) \<Rightarrow>
          (if rows = [] \<or> nextPageToken = None then rows
           else rows @ row_stream fuel pgSize jb nextPageToken))"

text \<open>
  How the paging of a job ends, which the job alone decides: not within the fuel
  (\<open>None\<close>), by a fetch that throws (\<open>Some (Some e)\<close>), or at an empty page or a page
  without a token (\<open>Some None\<close>).
\<close>

fun paging_outcome :: "nat \<Rightarrow> nat \<Rightarrow> job \<Rightarrow> jsstring option \<Rightarrow> thrown option option" where
  "paging_outcome 0 pgSize jb pageToken = None"
| "paging_outcome (Suc fuel) pgSize jb pageToken =
     (case fetchBigQueryPage jb pageToken pgSize of
        Inl e \<Rightarrow> Some (Some e)
      | Inr (rows, nextPageToken) \<Rightarrow>
          (if rows = [] \<or> nextPageToken = None then Some None
           else paging_outcome fuel pgSize jb nextPageToken))"

text \<open>
  The distinct identifiers of the rows that are not blank-only: rows with a non-blank
  identifier and a non-empty property mapping.
\<close>

definition distinct_non_blank_only_ids :: "config \<Rightarrow> row list \<Rightarrow> jsstring list" where
  "distinct_non_blank_only_ids cfg rows =
     remdups (map (row_id cfg) (filter (\<lambda>r. row_id cfg r \<noteq> [] \<and> row_props cfg r \<noteq> []) rows))"

text \<open>The invariant of the pool, for \<open>n\<close> items and \<open>c\<close> workers.\<close>

definition pool_inv :: "nat \<Rightarrow> nat \<Rightarrow> pool \<Rightarrow> bool" where
  "pool_inv n c p \<longleftrightarrow>
     length (workers p) = c
     \<and> started p = [0..<min (idx p) n]
     \<and> (\<forall>i \<in> set (in_flight p). \<exists>w < c. workers p ! w = Awaiting i)"

section \<open>Example inputs\<close>

text \<open>
  The scenario of the specification: the mapping \<open>{country: country_normalized, state:
  state_normalized}\<close> over rows keyed by \<open>id\<close>, with the defaults of the source for the
  sizes and flags.
\<close>

definition ok_client :: hubspot_client where
  "ok_client =
     \<lparr>contacts_update = (\<lambda>n i p. None), companies_update = (\<lambda>n i p. None),
      deals_update = (\<lambda>n i p. None), tickets_update = (\<lambda>n i p. None),
      objects_update = (\<lambda>n ob i p. None)\<rparr>"

definition failing_client :: "nat \<Rightarrow> thrown \<Rightarrow> hubspot_client" where
  "failing_client k e =
     \<lparr>contacts_update = (\<lambda>n i p. if n = k then Some e else None),
      companies_update = (\<lambda>n i p. if n = k then Some e else None),
      deals_update = (\<lambda>n i p. if n = k then Some e else None),
      tickets_update = (\<lambda>n i p. if n = k then Some e else None),
      objects_update = (\<lambda>n ob i p. if n = k then Some e else None)\<rparr>"

definition boom :: thrown where
  "boom = \<lparr>response_body = None, message = js ''boom'', to_string = js ''Error: boom''\<rparr>"

text \<open>A job given by a table from page tokens to responses; it throws on any other token.\<close>

definition table_job :: "(jsstring option \<times> (row list \<times> jsstring option)) list \<Rightarrow> job" where
  "table_job table pgSize pageToken =
     (case map_of table pageToken of None \<Rightarrow> Inl boom | Some resp \<Rightarrow> Inr resp)"

definition scenario_config :: "bool \<Rightarrow> hubspot_client \<Rightarrow> job \<Rightarrow> config" where
  "scenario_config ap hc jb =
     \<lparr>object = js ''contacts'', sql = js ''SELECT id FROM t'',
      property = PropertyObject [(js ''country'', js ''country_normalized''),
                                 (js ''state'', js ''state_normalized'')],
      column_name = [], matching_id = js ''id'', matchKeyType = js ''id'',
      apply_mode = ap, pageSize = 5000, updateBatchSize = 500, updateConcurrency = 10,
      dropBlanks = True, checkpointPath = js ''cp.json'', skipAlreadyProcessed = True,
      outputCsvPath = js ''out.csv'', hubspotClient = Some hc,
      bigqueryClient = Some \<lparr>createQueryJob = (\<lambda>query. Inr jb)\<rparr>\<rparr>"

definition contact_row :: "string \<Rightarrow> jsval \<Rightarrow> jsval \<Rightarrow> row" where
  "contact_row ident country state =
     [(js ''id'', Str (js ident)), (js ''country_normalized'', country),
      (js ''state_normalized'', state)]"

definition row_us :: row where
  "row_us = contact_row ''1'' (Str (js ''US'')) (Str (js ''CA''))"

definition row_blank :: row where
  "row_blank = contact_row ''2'' Null Null"

definition row_mx :: row where
  "row_mx = contact_row ''3'' (Str (js ''MX'')) (Str (js '' ''))"

definition world0 :: run_state where
  "world0 =
     \<lparr>processed = [], totalFetched = 0, totalAttempted = 0, totalUpdated = 0,
      totalSkipped = 0, errors = [], checkpoint_file = None, csv_file = None,
      sql_files = (\<lambda>p. None), hs_calls = []\<rparr>"

text \<open>A job of three pages with 5000, 5000 and 0 rows, each with a token, and a fourth
  page that comes without a token.\<close>

definition page_a :: "row list" where
  "page_a = replicate 5000 row_us"

definition page_b :: "row list" where
  "page_b = replicate 5000 row_blank"

definition three_page_job :: job where
  "three_page_job =
     table_job [(None, (page_a, Some (js ''t1''))),
                (Some (js ''t1''), (page_b, Some (js ''t2''))),
                (Some (js ''t2''), ([], Some (js ''t3''))),
                (Some (js ''t9''), ([row_mx], None))]"

definition row_de :: row where
  "row_de = contact_row ''4'' (Str (js ''DE'')) (Str (js ''BE''))"

text \<open>A job with one page of three rows, and the pending updates the page yields.\<close>

definition one_page_job :: job where
  "one_page_job = table_job [(None, ([row_us, row_mx, row_de], None))]"


text \<open>A job whose only page holds one blank-only row, and a world that has a checkpoint
  file.\<close>

definition blank_page_job :: job where
  "blank_page_job = table_job [(None, ([row_blank], None))]"

definition world_with_checkpoint :: run_state where
  "world_with_checkpoint = world0\<lparr>checkpoint_file := Some (JsonArray [js ''9''])\<rparr>"



text \<open>
  A job whose only page holds the same row twice, and the states at the return of a
  first run on it and of a second run that starts from the first one's files.
\<close>

definition dup_page_job :: job where
  "dup_page_job = table_job [(None, ([row_us, row_us], None))]"

definition us_update :: pending where
  "us_update = (js ''1'', [(js ''country'', Str (js ''US'')), (js ''state'', Str (js ''CA''))])"

definition us_updated_row :: audit_row where
  "us_updated_row =
     \<lparr>matchVal = js ''1'', status = UPDATED,
      properties_json = [(js ''country'', Str (js ''US'')), (js ''state'', Str (js ''CA''))],
      error = []\<rparr>"

definition dup_first_state :: run_state where
  "dup_first_state =
     \<lparr>processed = [js ''1''], totalFetched = 2, totalAttempted = 2, totalUpdated = 2,
      totalSkipped = 0, errors = [], checkpoint_file = Some (JsonArray [js ''1'']),
      csv_file = Some [us_updated_row, us_updated_row], sql_files = (\<lambda>p. None),
      hs_calls = [us_update, us_update]\<rparr>"

definition dup_second_state :: run_state where
  "dup_second_state =
     \<lparr>processed = [js ''1''], totalFetched = 2, totalAttempted = 0, totalUpdated = 0,
      totalSkipped = 2, errors = [], checkpoint_file = Some (JsonArray [js ''1'']),
      csv_file = Some [us_updated_row, us_updated_row], sql_files = (\<lambda>p. None),
      hs_calls = [us_update, us_update]\<rparr>"

section \<open>Properties of the record mapper\<close>

lemma set_set_add [simp]: "set (set_add x s) = insert x (set s)"
  by (auto simp: set_add_def)

lemma keep_value_Undefined [simp]: "keep_value db Undefined = False"
  and keep_value_Null [simp]: "keep_value db Null = False"
  by (simp_all add: keep_value_def)

lemma set_clean: "set (clean db obj) = {(k, v). (k, v) \<in> set obj \<and> keep_value db v}"
  by (auto simp: clean_def)

text \<open>
  Claim C4. The blank rule of the record mapper: \<open>null\<close> and \<open>undefined\<close> are never in the
  result of \<open>clean\<close>, whatever \<open>dropBlanks\<close> is; with \<open>dropBlanks\<close> set, a value of the
  object is kept exactly when it is neither of the two and its text, trimmed, is not
  empty; with \<open>dropBlanks\<close> unset, every other value is kept, the empty string included.
\<close>

theorem clean_blank_rule:
  "(k, Undefined) \<notin> set (clean db obj) \<and> (k, Null) \<notin> set (clean db obj)
   \<and> ((k, v) \<in> set (clean True obj)
        \<longleftrightarrow> (k, v) \<in> set obj \<and> v \<noteq> Undefined \<and> v \<noteq> Null \<and> trim (String v) \<noteq> [])
   \<and> ((k, v) \<in> set (clean False obj) \<longleftrightarrow> (k, v) \<in> set obj \<and> v \<noteq> Undefined \<and> v \<noteq> Null)
   \<and> ((k, Str []) \<in> set (clean False obj) \<longleftrightarrow> (k, Str []) \<in> set obj)"
  by (auto simp: set_clean keep_value_def)

theorem clean_blank_rule_witness:
  "(js ''a'', Null) \<notin> set (clean False [(js ''a'', Str (js '' '')), (js ''c'', Null), (js ''d'', Str [])])
   \<and> (js ''a'', Str (js '' '')) \<notin> set (clean True [(js ''a'', Str (js '' '')), (js ''c'', Null), (js ''d'', Str [])])
   \<and> (js ''a'', Str (js '' '')) \<in> set (clean False [(js ''a'', Str (js '' '')), (js ''c'', Null), (js ''d'', Str [])])"
  using clean_blank_rule [where k = "js ''a''" and db = False and v = "Str (js '' '')"
      and obj = "[(js ''a'', Str (js '' '')), (js ''c'', Null), (js ''d'', Str [])]"]
  by (simp add: js_def trim_def is_whitespace_def)

lemma build_update_frame:
  "hs_calls (fst (build_update cfg r acc)) = hs_calls (fst acc)"
  "checkpoint_file (fst (build_update cfg r acc)) = checkpoint_file (fst acc)"
  "csv_file (fst (build_update cfg r acc)) = csv_file (fst acc)"
  "sql_files (fst (build_update cfg r acc)) = sql_files (fst acc)"
  "totalFetched (fst (build_update cfg r acc)) = totalFetched (fst acc)"
  "totalAttempted (fst (build_update cfg r acc)) = totalAttempted (fst acc)"
  "totalUpdated (fst (build_update cfg r acc)) = totalUpdated (fst acc)"
  "errors (fst (build_update cfg r acc)) = errors (fst acc)"
  by (simp_all add: build_update_def Let_def)

lemma build_update_processed_mono:
  "set (processed (fst acc)) \<subseteq> set (processed (fst (build_update cfg r acc)))"
  by (auto simp: build_update_def Let_def)

lemma build_updates_Nil [simp]: "build_updates cfg [] st = (st, [])"
  by (simp add: build_updates_def)

lemma fold_build_update_frame:
  "hs_calls (fst (fold (build_update cfg) rows acc)) = hs_calls (fst acc)
   \<and> checkpoint_file (fst (fold (build_update cfg) rows acc)) = checkpoint_file (fst acc)
   \<and> csv_file (fst (fold (build_update cfg) rows acc)) = csv_file (fst acc)
   \<and> sql_files (fst (fold (build_update cfg) rows acc)) = sql_files (fst acc)
   \<and> totalFetched (fst (fold (build_update cfg) rows acc)) = totalFetched (fst acc)
   \<and> totalAttempted (fst (fold (build_update cfg) rows acc)) = totalAttempted (fst acc)
   \<and> totalUpdated (fst (fold (build_update cfg) rows acc)) = totalUpdated (fst acc)
   \<and> errors (fst (fold (build_update cfg) rows acc)) = errors (fst acc)
   \<and> set (processed (fst acc)) \<subseteq> set (processed (fst (fold (build_update cfg) rows acc)))"
proof (induction rows arbitrary: acc)
  case Nil
  show ?case by simp
next
  case (Cons r rows)
  show ?case
    using Cons.IH [of "build_update cfg r acc"] build_update_processed_mono [of acc cfg r]
    by (simp add: build_update_frame) blast
qed

lemma fold_build_update_batch:
  "\<exists>new. snd (fold (build_update cfg) rows acc) = snd acc @ new \<and> (\<forall>w \<in> set new. snd w \<noteq> [] \<and> fst w \<noteq> [])"
proof (induction rows arbitrary: acc)
  case Nil
  show ?case by simp
next
  case (Cons r rows)
  obtain new where n: "snd (fold (build_update cfg) rows (build_update cfg r acc)) = snd (build_update cfg r acc) @ new"
    "\<forall>w \<in> set new. snd w \<noteq> [] \<and> fst w \<noteq> []"
    using Cons.IH [of "build_update cfg r acc"] by blast
  have "\<exists>one. snd (build_update cfg r acc) = snd acc @ one \<and> (\<forall>w \<in> set one. snd w \<noteq> [] \<and> fst w \<noteq> [])"
    by (simp add: build_update_def Let_def)
  then obtain one where o: "snd (build_update cfg r acc) = snd acc @ one" "\<forall>w \<in> set one. snd w \<noteq> [] \<and> fst w \<noteq> []"
    by blast
  have "snd (fold (build_update cfg) (r # rows) acc) = snd acc @ (one @ new)"
    using n o by simp
  moreover have "\<forall>w \<in> set (one @ new). snd w \<noteq> [] \<and> fst w \<noteq> []"
    using n o by auto
  ultimately show ?case by blast
qed

lemma fold_build_update_discard:
  assumes "r \<in> set rows" "row_id cfg r \<noteq> []" "row_props cfg r = []"
  shows "row_id cfg r \<in> set (processed (fst (fold (build_update cfg) rows acc)))"
  using assms(1)
proof (induction rows arbitrary: acc)
  case Nil
  then show ?case by simp
next
  case (Cons a rows)
  show ?case
  proof (cases "a = r")
    case True
    have "row_id cfg r \<in> set (processed (fst (build_update cfg r acc)))"
      using assms(2,3) by (simp add: build_update_def Let_def)
    then show ?thesis
      using fold_build_update_frame [of cfg rows "build_update cfg r acc"] True by auto
  next
    case False
    then have "r \<in> set rows" using Cons.prems by simp
    then show ?thesis using Cons.IH by simp
  qed
qed

text \<open>
  Claim C5. Blank-only discard: a row with a non-blank identifier whose property mapping
  is empty after filtering adds no pending update, is counted as skipped, issues no
  update call, and leaves its identifier in the processed set; at the end of the scan of
  a page that holds the row, the identifier is in the processed set and the batch holds
  no update made from the row.
\<close>

theorem blank_only_discard:
  assumes "row_id cfg r \<noteq> []" and "row_props cfg r = []"
  shows "snd (build_update cfg r (st, batchUpdates)) = batchUpdates
    \<and> totalSkipped (fst (build_update cfg r (st, batchUpdates))) = totalSkipped st + 1
    \<and> row_id cfg r \<in> set (processed (fst (build_update cfg r (st, batchUpdates))))
    \<and> hs_calls (fst (build_update cfg r (st, batchUpdates))) = hs_calls st
    \<and> (r \<in> set rows \<longrightarrow>
         row_id cfg r \<in> set (processed (fst (build_updates cfg rows st)))
         \<and> (row_id cfg r, row_props cfg r) \<notin> set (snd (build_updates cfg rows st)))"
proof -
  have a: "snd (build_update cfg r (st, batchUpdates)) = batchUpdates
    \<and> totalSkipped (fst (build_update cfg r (st, batchUpdates))) = totalSkipped st + 1
    \<and> row_id cfg r \<in> set (processed (fst (build_update cfg r (st, batchUpdates))))
    \<and> hs_calls (fst (build_update cfg r (st, batchUpdates))) = hs_calls st"
    using assms by (simp add: build_update_def Let_def)
  have b: "(row_id cfg r, row_props cfg r) \<notin> set (snd (build_updates cfg rows st))"
    using fold_build_update_batch [of cfg rows "(st, [])"] assms(2)
    by (auto simp: build_updates_def)
  have c: "r \<in> set rows \<longrightarrow> row_id cfg r \<in> set (processed (fst (build_updates cfg rows st)))"
    using fold_build_update_discard [OF _ assms] by (simp add: build_updates_def)
  show ?thesis using a b c by blast
qed

lemmas example_eval =
  js_def contact_row_def row_us_def row_blank_def row_mx_def scenario_config_def world0_def
  ok_client_def failing_client_def boom_def table_job_def

lemmas mapper_eval =
  row_id_def row_props_def row_get_def clean_def keep_value_def trim_def is_whitespace_def

theorem blank_only_discard_witness:
  "row_id (scenario_config True ok_client (table_job [])) row_blank \<noteq> []
   \<and> row_props (scenario_config True ok_client (table_job [])) row_blank = []
   \<and> snd (build_update (scenario_config True ok_client (table_job [])) row_blank (world0, [])) = []
   \<and> totalSkipped (fst (build_update (scenario_config True ok_client (table_job [])) row_blank (world0, [])))
       = totalSkipped world0 + 1
   \<and> row_id (scenario_config True ok_client (table_job [])) row_blank
       \<in> set (processed (fst (build_updates (scenario_config True ok_client (table_job []))
                                 [row_us, row_blank] world0)))"
proof -
  have h1: "row_id (scenario_config True ok_client (table_job [])) row_blank \<noteq> []"
    by (simp add: example_eval mapper_eval)
  have h2: "row_props (scenario_config True ok_client (table_job [])) row_blank = []"
    by (simp add: example_eval mapper_eval)
  show ?thesis
    using h1 h2 blank_only_discard [OF h1 h2, of world0 "[]" "[row_us, row_blank]"]
    by simp
qed

section \<open>Properties of the worker pool\<close>

lemma pool_inv_init: "pool_inv n c (pool_init c)"
  by (simp add: pool_inv_def pool_init_def in_flight_def)

lemma pool_inv_step:
  assumes "pool_inv n c p"
  shows "pool_inv n c (worker_step n w p)"
proof (cases "w < length (workers p)")
  case False
  then show ?thesis using assms by (simp add: worker_step_def)
next
  case True
  from assms have len: "length (workers p) = c"
    and st: "started p = [0..<min (idx p) n]"
    and fl: "\<forall>i \<in> set (in_flight p). \<exists>w < c. workers p ! w = Awaiting i"
    by (simp_all add: pool_inv_def)
  show ?thesis
  proof (cases "workers p ! w")
    case AtLoopHead
    show ?thesis
    proof (cases "idx p \<ge> n")
      case ge: True
      have eq: "worker_step n w p = p\<lparr>idx := idx p + 1, workers := (workers p)[w := Exited]\<rparr>"
        using True AtLoopHead ge by (simp add: worker_step_def Let_def)
      have "\<forall>i \<in> set (in_flight p). \<exists>w' < c. (workers p)[w := Exited] ! w' = Awaiting i"
      proof
        fix i assume "i \<in> set (in_flight p)"
        then obtain w' where w': "w' < c" "workers p ! w' = Awaiting i" using fl by blast
        then have "w' \<noteq> w" using AtLoopHead by auto
        then show "\<exists>w' < c. (workers p)[w := Exited] ! w' = Awaiting i"
          using w' by (intro exI [of _ w']) simp
      qed
      then show ?thesis
        using len st ge by (simp add: eq pool_inv_def in_flight_def min_def)
    next
      case lt: False
      have eq: "worker_step n w p =
          p\<lparr>idx := idx p + 1, workers := (workers p)[w := Awaiting (idx p)],
            started := started p @ [idx p]\<rparr>"
        using True AtLoopHead lt by (simp add: worker_step_def Let_def)
      have st': "started p @ [idx p] = [0..<min (idx p + 1) n]"
        using st lt by (simp add: min_def)
      have "\<forall>i \<in> set (filter (\<lambda>i. i \<notin> set (finished p)) (started p @ [idx p])).
              \<exists>w' < c. (workers p)[w := Awaiting (idx p)] ! w' = Awaiting i"
      proof
        fix i assume i: "i \<in> set (filter (\<lambda>i. i \<notin> set (finished p)) (started p @ [idx p]))"
        show "\<exists>w' < c. (workers p)[w := Awaiting (idx p)] ! w' = Awaiting i"
        proof (cases "i = idx p")
          case True
          then show ?thesis using \<open>w < length (workers p)\<close> len
            by (intro exI [of _ w]) simp
        next
          case False
          then have "i \<in> set (in_flight p)" using i by (auto simp: in_flight_def split: if_splits)
          then obtain w' where w': "w' < c" "workers p ! w' = Awaiting i" using fl by blast
          then have "w' \<noteq> w" using AtLoopHead by auto
          then show ?thesis using w' by (intro exI [of _ w']) simp
        qed
      qed
      then show ?thesis
        using len st' by (simp add: eq pool_inv_def in_flight_def)
    qed
  next
    case (Awaiting j)
    have eq: "worker_step n w p =
        p\<lparr>workers := (workers p)[w := AtLoopHead], finished := finished p @ [j]\<rparr>"
      using True Awaiting by (simp add: worker_step_def)
    have "\<forall>i \<in> set (filter (\<lambda>i. i \<notin> set (finished p @ [j])) (started p)).
            \<exists>w' < c. (workers p)[w := AtLoopHead] ! w' = Awaiting i"
    proof
      fix i assume i: "i \<in> set (filter (\<lambda>i. i \<notin> set (finished p @ [j])) (started p))"
      then have "i \<noteq> j" and "i \<in> set (in_flight p)" by (auto simp: in_flight_def)
      then obtain w' where w': "w' < c" "workers p ! w' = Awaiting i" using fl by blast
      then have "w' \<noteq> w" using Awaiting \<open>i \<noteq> j\<close> by auto
      then show "\<exists>w' < c. (workers p)[w := AtLoopHead] ! w' = Awaiting i"
        using w' by (intro exI [of _ w']) simp
    qed
    then show ?thesis
      using len st by (simp add: eq pool_inv_def in_flight_def)
  next
    case Exited
    then show ?thesis using assms True by (simp add: worker_step_def)
  qed
qed

lemma pool_inv_exec: "pool_inv n c (pool_exec n c schedule)"
proof (induction schedule rule: rev_induct)
  case Nil
  show ?case by (simp add: pool_exec_def pool_inv_init)
next
  case (snoc w schedule)
  then show ?case using pool_inv_step [of n c "pool_exec n c schedule" w]
    by (simp add: pool_exec_def)
qed

lemma pool_inv_bound:
  assumes "pool_inv n c p"
  shows "length (in_flight p) \<le> c"
proof -
  from assms have len: "length (workers p) = c"
    and st: "started p = [0..<min (idx p) n]"
    and fl: "\<forall>i \<in> set (in_flight p). \<exists>w < c. workers p ! w = Awaiting i"
    by (simp_all add: pool_inv_def)
  have "distinct (started p)" using st by simp
  then have d: "distinct (in_flight p)" by (simp add: in_flight_def)
  have "set (in_flight p) \<subseteq> (\<lambda>w. case workers p ! w of Awaiting i \<Rightarrow> i | _ \<Rightarrow> 0) ` {..<c}"
  proof
    fix i assume "i \<in> set (in_flight p)"
    then obtain w where "w < c" "workers p ! w = Awaiting i" using fl by blast
    then show "i \<in> (\<lambda>w. case workers p ! w of Awaiting i \<Rightarrow> i | _ \<Rightarrow> 0) ` {..<c}"
      by (intro image_eqI [of _ _ w]) simp_all
  qed
  then have "card (set (in_flight p)) \<le> card ((\<lambda>w. case workers p ! w of Awaiting i \<Rightarrow> i | _ \<Rightarrow> 0) ` {..<c})"
    by (intro card_mono) simp_all
  also have "\<dots> \<le> card {..<c}" by (rule card_image_le) simp
  finally show ?thesis using d by (simp add: distinct_card)
qed

text \<open>
  The calls of a wave are started in the order of the items, each item at most once,
  whatever the schedule.
\<close>

lemma pool_started_in_order:
  "started (pool_exec n c schedule) = [0..<min (idx (pool_exec n c schedule)) n]"
  using pool_inv_exec [of n c schedule] by (simp add: pool_inv_def)

text \<open>
  When every worker has left its loop, the pool (if it has a worker) has started the
  call of every item once, in the order of the items, and every call has completed:
  this is what \<open>runWithConcurrency\<close> above takes as the effect of a wave.
\<close>

lemma worker_step_exited:
  assumes "Exited \<in> set (workers p) \<longrightarrow> n \<le> idx p"
  shows "Exited \<in> set (workers (worker_step n w p)) \<longrightarrow> n \<le> idx (worker_step n w p)"
proof (cases "w < length (workers p)")
  case False
  then show ?thesis using assms by (simp add: worker_step_def)
next
  case True
  show ?thesis
  proof (cases "workers p ! w")
    case AtLoopHead
    show ?thesis
    proof (cases "idx p \<ge> n")
      case True
      then show ?thesis using \<open>w < length (workers p)\<close> AtLoopHead
        by (simp add: worker_step_def Let_def)
    next
      case False
      have "Exited \<in> set ((workers p)[w := Awaiting (idx p)]) \<Longrightarrow> Exited \<in> set (workers p)"
        using set_update_subset_insert [of "workers p" w "Awaiting (idx p)"] by auto
      then show ?thesis using \<open>w < length (workers p)\<close> AtLoopHead False assms
        by (auto simp: worker_step_def Let_def)
    qed
  next
    case (Awaiting i)
    have "Exited \<in> set ((workers p)[w := AtLoopHead]) \<Longrightarrow> Exited \<in> set (workers p)"
      using set_update_subset_insert [of "workers p" w AtLoopHead] by auto
    then show ?thesis using True Awaiting assms
      by (auto simp: worker_step_def)
  next
    case Exited
    then show ?thesis using True assms by (simp add: worker_step_def)
  qed
qed

lemma pool_exec_exited:
  "Exited \<in> set (workers (pool_exec n c schedule)) \<longrightarrow> n \<le> idx (pool_exec n c schedule)"
proof (induction schedule rule: rev_induct)
  case Nil
  show ?case by (simp add: pool_exec_def pool_init_def)
next
  case (snoc w schedule)
  then show ?case using worker_step_exited [of "pool_exec n c schedule" n w]
    by (simp add: pool_exec_def)
qed

lemma pool_completion:
  assumes "0 < c" and "\<forall>pc \<in> set (workers (pool_exec n c schedule)). pc = Exited"
  shows "started (pool_exec n c schedule) = [0..<n]" and "in_flight (pool_exec n c schedule) = []"
proof -
  let ?p = "pool_exec n c schedule"
  have inv: "pool_inv n c ?p" by (rule pool_inv_exec)
  then have len: "length (workers ?p) = c" by (simp add: pool_inv_def)
  then have "workers ?p \<noteq> []" using assms(1) by auto
  then have "Exited \<in> set (workers ?p)" using assms(2) by (cases "workers ?p") auto
  then have "n \<le> idx ?p" using pool_exec_exited by blast
  then show "started ?p = [0..<n]" using pool_started_in_order [of n c schedule] by (simp add: min_def)
  show "in_flight ?p = []"
  proof (rule ccontr)
    assume "in_flight ?p \<noteq> []"
    then obtain i where "i \<in> set (in_flight ?p)" by (cases "in_flight ?p") auto
    then obtain w where "w < c" "workers ?p ! w = Awaiting i" using inv by (auto simp: pool_inv_def)
    then have "Awaiting i \<in> set (workers ?p)" using len by (metis nth_mem)
    then show False using assms(2) by auto
  qed
qed

text \<open>
  Claim C8. The concurrency bound: in every execution of the pool with concurrency limit
  \<open>c\<close>, for a wave of any length (longer than \<open>c\<close> or not), at most \<open>c\<close> update calls are
  in flight at every moment.
\<close>

theorem concurrency_bound:
  "length (in_flight (pool_exec (length wave) c schedule)) \<le> c"
  using pool_inv_bound [OF pool_inv_exec] .

theorem concurrency_bound_witness:
  "in_flight (pool_exec (length [row_us, row_blank, row_mx]) 2 [0, 1, 1, 1, 0]) = [2]
   \<and> length (in_flight (pool_exec (length [row_us, row_blank, row_mx]) 2 [0, 1, 1, 1, 0])) \<le> 2"
  using concurrency_bound [of "[row_us, row_blank, row_mx]" 2 "[0, 1, 1, 1, 0]"]
  by (simp add: pool_exec_def pool_init_def worker_step_def in_flight_def Let_def)

section \<open>Properties of one wave\<close>

lemma worker_frame:
  "checkpoint_file (fst (worker cfg hc w acc)) = checkpoint_file (fst acc)"
  "csv_file (fst (worker cfg hc w acc)) = csv_file (fst acc)"
  "sql_files (fst (worker cfg hc w acc)) = sql_files (fst acc)"
  "totalFetched (fst (worker cfg hc w acc)) = totalFetched (fst acc)"
  "totalSkipped (fst (worker cfg hc w acc)) = totalSkipped (fst acc)"
  "totalAttempted (fst (worker cfg hc w acc)) = totalAttempted (fst acc) + 1"
  "hs_calls (fst (worker cfg hc w acc)) = hs_calls (fst acc) @ [w]"
  "set (processed (fst (worker cfg hc w acc))) = insert (fst w) (set (processed (fst acc)))"
  by (simp_all add: worker_def Let_def split: option.splits)



lemma fold_worker_frame:
  "checkpoint_file (fst (fold (worker cfg hc) wave acc)) = checkpoint_file (fst acc)
   \<and> csv_file (fst (fold (worker cfg hc) wave acc)) = csv_file (fst acc)
   \<and> sql_files (fst (fold (worker cfg hc) wave acc)) = sql_files (fst acc)
   \<and> totalFetched (fst (fold (worker cfg hc) wave acc)) = totalFetched (fst acc)
   \<and> totalSkipped (fst (fold (worker cfg hc) wave acc)) = totalSkipped (fst acc)
   \<and> totalAttempted (fst (fold (worker cfg hc) wave acc)) = totalAttempted (fst acc) + length wave
   \<and> hs_calls (fst (fold (worker cfg hc) wave acc)) = hs_calls (fst acc) @ wave
   \<and> set (processed (fst (fold (worker cfg hc) wave acc)))
       = set (processed (fst acc)) \<union> fst ` set wave"
proof (induction wave arbitrary: acc)
  case Nil
  show ?case by simp
next
  case (Cons w wave)
  show ?case using Cons.IH [of "worker cfg hc w acc"]
    by (simp add: worker_frame)
qed


lemma dry_run_item_frame:
  "checkpoint_file (dry_run_item cfg w st) = checkpoint_file st"
  "sql_files (dry_run_item cfg w st) = sql_files st"
  "totalFetched (dry_run_item cfg w st) = totalFetched st"
  "totalSkipped (dry_run_item cfg w st) = totalSkipped st"
  "totalAttempted (dry_run_item cfg w st) = totalAttempted st"
  "totalUpdated (dry_run_item cfg w st) = totalUpdated st"
  "errors (dry_run_item cfg w st) = errors st"
  "hs_calls (dry_run_item cfg w st) = hs_calls st"
  "set (processed (dry_run_item cfg w st)) = insert (fst w) (set (processed st))"
  by (simp_all add: dry_run_item_def writeCsvAppend_def Let_def)

lemma fold_dry_run_frame:
  "checkpoint_file (fold (dry_run_item cfg) wave st) = checkpoint_file st
   \<and> sql_files (fold (dry_run_item cfg) wave st) = sql_files st
   \<and> totalFetched (fold (dry_run_item cfg) wave st) = totalFetched st
   \<and> totalSkipped (fold (dry_run_item cfg) wave st) = totalSkipped st
   \<and> totalAttempted (fold (dry_run_item cfg) wave st) = totalAttempted st
   \<and> totalUpdated (fold (dry_run_item cfg) wave st) = totalUpdated st
   \<and> errors (fold (dry_run_item cfg) wave st) = errors st
   \<and> hs_calls (fold (dry_run_item cfg) wave st) = hs_calls st
   \<and> set (processed (fold (dry_run_item cfg) wave st)) = set (processed st) \<union> fst ` set wave"
proof (induction wave arbitrary: st)
  case Nil
  show ?case by simp
next
  case (Cons w wave)
  show ?case using Cons.IH [of "dry_run_item cfg w st"]
    by (simp add: dry_run_item_frame)
qed

lemma saveCheckpoint_frame:
  "processed (saveCheckpoint path s st) = processed st"
  "csv_file (saveCheckpoint path s st) = csv_file st"
  "sql_files (saveCheckpoint path s st) = sql_files st"
  "totalFetched (saveCheckpoint path s st) = totalFetched st"
  "totalSkipped (saveCheckpoint path s st) = totalSkipped st"
  "totalAttempted (saveCheckpoint path s st) = totalAttempted st"
  "totalUpdated (saveCheckpoint path s st) = totalUpdated st"
  "errors (saveCheckpoint path s st) = errors st"
  "hs_calls (saveCheckpoint path s st) = hs_calls st"
  by (simp_all add: saveCheckpoint_def)

lemma writeCsvAppend_frame:
  "processed (writeCsvAppend rows st) = processed st"
  "checkpoint_file (writeCsvAppend rows st) = checkpoint_file st"
  "sql_files (writeCsvAppend rows st) = sql_files st"
  "totalFetched (writeCsvAppend rows st) = totalFetched st"
  "totalSkipped (writeCsvAppend rows st) = totalSkipped st"
  "totalAttempted (writeCsvAppend rows st) = totalAttempted st"
  "totalUpdated (writeCsvAppend rows st) = totalUpdated st"
  "errors (writeCsvAppend rows st) = errors st"
  "hs_calls (writeCsvAppend rows st) = hs_calls st"
  by (simp_all add: writeCsvAppend_def)

text \<open>Whether the items of a wave are dispatched: always in a dry run, and in apply mode
  when the pool has a worker.\<close>

lemma process_wave_frame:
  "sql_files (process_wave cfg hc wave st) = sql_files st"
  "totalFetched (process_wave cfg hc wave st) = totalFetched st"
  "totalSkipped (process_wave cfg hc wave st) = totalSkipped st"
  using fold_worker_frame [of cfg hc wave "(st, [])"]
    fold_dry_run_frame [of cfg wave "st\<lparr>totalAttempted := totalAttempted st + length wave\<rparr>"]
  by (simp_all add: process_wave_def runWithConcurrency_def Let_def saveCheckpoint_frame
      writeCsvAppend_frame)

lemma process_wave_processed:
  "set (processed (process_wave cfg hc wave st)) =
     set (processed st) \<union> (if apply_mode cfg \<and> updateConcurrency cfg = 0 then {} else fst ` set wave)"
  using fold_worker_frame [of cfg hc wave "(st, [])"]
    fold_dry_run_frame [of cfg wave "st\<lparr>totalAttempted := totalAttempted st + length wave\<rparr>"]
  by (simp add: process_wave_def runWithConcurrency_def Let_def saveCheckpoint_frame
      writeCsvAppend_frame)

lemma process_wave_calls:
  "hs_calls (process_wave cfg hc wave st) =
     hs_calls st @ (if apply_mode cfg \<and> 0 < updateConcurrency cfg then wave else [])"
  using fold_worker_frame [of cfg hc wave "(st, [])"]
    fold_dry_run_frame [of cfg wave "st\<lparr>totalAttempted := totalAttempted st + length wave\<rparr>"]
  by (simp add: process_wave_def runWithConcurrency_def Let_def saveCheckpoint_frame
      writeCsvAppend_frame)

lemma process_wave_attempted:
  "totalAttempted (process_wave cfg hc wave st) =
     totalAttempted st + (if apply_mode cfg \<and> updateConcurrency cfg = 0 then 0 else length wave)"
  using fold_worker_frame [of cfg hc wave "(st, [])"]
    fold_dry_run_frame [of cfg wave "st\<lparr>totalAttempted := totalAttempted st + length wave\<rparr>"]
  by (simp add: process_wave_def runWithConcurrency_def Let_def saveCheckpoint_frame
      writeCsvAppend_frame)

lemma process_wave_checkpoint:
  "checkpoint_file (process_wave cfg hc wave st) =
     (if checkpointPath cfg = [] then checkpoint_file st
      else Some (JsonArray (processed (process_wave cfg hc wave st))))"
  using fold_worker_frame [of cfg hc wave "(st, [])"]
    fold_dry_run_frame [of cfg wave "st\<lparr>totalAttempted := totalAttempted st + length wave\<rparr>"]
  by (simp add: process_wave_def runWithConcurrency_def Let_def saveCheckpoint_def
      writeCsvAppend_frame)

lemma process_wave_stored:
  "stored_ids cfg (process_wave cfg hc wave st) =
     (if checkpointPath cfg = [] then {} else set (processed (process_wave cfg hc wave st)))"
  by (simp add: stored_ids_def process_wave_checkpoint)

section \<open>Properties of the wave loop\<close>

lemma slice_drop:
  assumes "0 < n" "i < length xs"
  shows "slice xs i (i + n) \<noteq> []" and "drop i xs = slice xs i (i + n) @ drop (i + n) xs"
proof -
  show "slice xs i (i + n) \<noteq> []" using assms by (simp add: slice_def)
  show "drop i xs = slice xs i (i + n) @ drop (i + n) xs"
    using append_take_drop_id [of n "drop i xs"] by (simp add: slice_def add.commute)
qed

lemma wave_loop_done: "\<not> i < length batchUpdates \<Longrightarrow> wave_loop cfg hc batchUpdates i st = Some st"
  by (simp add: wave_loop.simps)

lemma wave_loop_step:
  assumes "0 < updateBatchSize cfg" "i < length batchUpdates"
  shows "wave_loop cfg hc batchUpdates i st =
     wave_loop cfg hc batchUpdates (i + updateBatchSize cfg)
       (process_wave cfg hc (slice batchUpdates i (i + updateBatchSize cfg)) st)"
  using assms slice_drop(1) [of "updateBatchSize cfg" i batchUpdates]
  by (subst wave_loop.simps) (simp add: Let_def)

lemma wave_loop_effect:
  assumes "0 < updateBatchSize cfg"
  shows "\<exists>st'. wave_loop cfg hc batchUpdates i st = Some st'
     \<and> sql_files st' = sql_files st \<and> totalFetched st' = totalFetched st
     \<and> totalSkipped st' = totalSkipped st
     \<and> set (processed st') = set (processed st) \<union>
          (if apply_mode cfg \<and> updateConcurrency cfg = 0 then {} else fst ` set (drop i batchUpdates))
     \<and> hs_calls st' = hs_calls st @
          (if apply_mode cfg \<and> 0 < updateConcurrency cfg then drop i batchUpdates else [])
     \<and> totalAttempted st' = totalAttempted st +
          (if apply_mode cfg \<and> updateConcurrency cfg = 0 then 0 else length batchUpdates - i)
     \<and> (if i < length batchUpdates
         then stored_ids cfg st' = (if checkpointPath cfg = [] then {} else set (processed st'))
         else st' = st)"
  using assms
proof (induction cfg hc batchUpdates i st rule: wave_loop.induct)
  case (1 cfg hc batchUpdates i st)
  show ?case
  proof (cases "i < length batchUpdates")
    case False
    then show ?thesis by (simp add: wave_loop_done)
  next
    case True
    let ?n = "updateBatchSize cfg"
    let ?wave = "slice batchUpdates i (i + ?n)"
    let ?st1 = "process_wave cfg hc ?wave st"
    have ne: "?wave \<noteq> []" and dr: "drop i batchUpdates = ?wave @ drop (i + ?n) batchUpdates"
      using slice_drop [OF "1.prems" True] by simp_all
    have bs: "updateBatchSize cfg \<noteq> 0" using "1.prems" by simp
    obtain st' where r: "wave_loop cfg hc batchUpdates (i + ?n) ?st1 = Some st'"
      and f: "sql_files st' = sql_files ?st1" "totalFetched st' = totalFetched ?st1"
        "totalSkipped st' = totalSkipped ?st1"
      and p: "set (processed st') = set (processed ?st1) \<union>
          (if apply_mode cfg \<and> updateConcurrency cfg = 0 then {}
           else fst ` set (drop (i + ?n) batchUpdates))"
      and c: "hs_calls st' = hs_calls ?st1 @
          (if apply_mode cfg \<and> 0 < updateConcurrency cfg then drop (i + ?n) batchUpdates else [])"
      and a: "totalAttempted st' = totalAttempted ?st1 +
          (if apply_mode cfg \<and> updateConcurrency cfg = 0 then 0 else length batchUpdates - (i + ?n))"
      and s: "(if i + ?n < length batchUpdates
         then stored_ids cfg st' = (if checkpointPath cfg = [] then {} else set (processed st'))
         else st' = ?st1)"
      using "1.IH"(2) [OF True refl bs ne "1.prems"] by blast
    have len: "length ?wave + (length batchUpdates - (i + ?n)) = length batchUpdates - i"
      using arg_cong [OF dr, of length] by simp
    have 1: "wave_loop cfg hc batchUpdates i st = Some st'"
      using wave_loop_step [OF "1.prems" True] r by simp
    have 2: "set (processed st') = set (processed st) \<union>
          (if apply_mode cfg \<and> updateConcurrency cfg = 0 then {} else fst ` set (drop i batchUpdates))"
      using p dr by (auto simp: process_wave_processed)
    have 3: "hs_calls st' = hs_calls st @
          (if apply_mode cfg \<and> 0 < updateConcurrency cfg then drop i batchUpdates else [])"
      using c dr by (simp add: process_wave_calls)
    have 4: "totalAttempted st' = totalAttempted st +
          (if apply_mode cfg \<and> updateConcurrency cfg = 0 then 0 else length batchUpdates - i)"
      using a len by (simp add: process_wave_attempted)
    have 5: "stored_ids cfg st' = (if checkpointPath cfg = [] then {} else set (processed st'))"
      using s by (cases "i + ?n < length batchUpdates") (simp_all add: process_wave_stored)
    show ?thesis
      using 1 2 3 4 5 f True by (simp add: process_wave_frame)
  qed
qed

section \<open>Properties of the page loop\<close>

lemma build_updates_frame:
  "hs_calls (fst (build_updates cfg rows st)) = hs_calls st"
  "checkpoint_file (fst (build_updates cfg rows st)) = checkpoint_file st"
  "csv_file (fst (build_updates cfg rows st)) = csv_file st"
  "sql_files (fst (build_updates cfg rows st)) = sql_files st"
  "totalFetched (fst (build_updates cfg rows st)) = totalFetched st"
  "totalAttempted (fst (build_updates cfg rows st)) = totalAttempted st"
  "totalUpdated (fst (build_updates cfg rows st)) = totalUpdated st"
  "errors (fst (build_updates cfg rows st)) = errors st"
  "set (processed st) \<subseteq> set (processed (fst (build_updates cfg rows st)))"
  using fold_build_update_frame [of cfg rows "(st, [])"]
  by (simp_all add: build_updates_def)

lemma process_page_effect:
  assumes "0 < updateBatchSize cfg"
  shows "\<exists>st3. process_page cfg hc rows st = Some st3
     \<and> sql_files st3 = sql_files st \<and> totalFetched st3 = totalFetched st
     \<and> totalSkipped st3 = totalSkipped (fst (build_updates cfg rows st))
     \<and> set (processed st3) = set (processed (fst (build_updates cfg rows st))) \<union>
          (if apply_mode cfg \<and> updateConcurrency cfg = 0 then {}
           else fst ` set (snd (build_updates cfg rows st)))
     \<and> hs_calls st3 = hs_calls st @
          (if apply_mode cfg \<and> 0 < updateConcurrency cfg then snd (build_updates cfg rows st) else [])
     \<and> totalAttempted st3 = totalAttempted st +
          (if apply_mode cfg \<and> updateConcurrency cfg = 0 then 0
           else length (snd (build_updates cfg rows st)))
     \<and> (if snd (build_updates cfg rows st) \<noteq> []
         then stored_ids cfg st3 = (if checkpointPath cfg = [] then {} else set (processed st3))
         else st3 = fst (build_updates cfg rows st))"
proof -
  obtain st' where "wave_loop cfg hc (snd (build_updates cfg rows st)) 0
        (fst (build_updates cfg rows st)) = Some st'"
    and "sql_files st' = sql_files (fst (build_updates cfg rows st))"
    and "totalFetched st' = totalFetched (fst (build_updates cfg rows st))"
    and "totalSkipped st' = totalSkipped (fst (build_updates cfg rows st))"
    and "set (processed st') = set (processed (fst (build_updates cfg rows st))) \<union>
          (if apply_mode cfg \<and> updateConcurrency cfg = 0 then {}
           else fst ` set (drop 0 (snd (build_updates cfg rows st))))"
    and "hs_calls st' = hs_calls (fst (build_updates cfg rows st)) @
          (if apply_mode cfg \<and> 0 < updateConcurrency cfg
           then drop 0 (snd (build_updates cfg rows st)) else [])"
    and "totalAttempted st' = totalAttempted (fst (build_updates cfg rows st)) +
          (if apply_mode cfg \<and> updateConcurrency cfg = 0 then 0
           else length (snd (build_updates cfg rows st)) - 0)"
    and "(if 0 < length (snd (build_updates cfg rows st))
         then stored_ids cfg st' = (if checkpointPath cfg = [] then {} else set (processed st'))
         else st' = fst (build_updates cfg rows st))"
    using wave_loop_effect [OF assms, of hc "snd (build_updates cfg rows st)" 0
      "fst (build_updates cfg rows st)"] by blast
  then show ?thesis
    by (intro exI [of _ st']) (simp add: process_page_def Let_def build_updates_frame)
qed

lemma page_loop_throw:
  "fetchBigQueryPage jb tok (pageSize cfg) = Inl e \<Longrightarrow>
     page_loop (Suc n) cfg hc jb tok st = Some (Inl (PageFetchFailed e))"
  by simp

lemma page_loop_empty_page:
  "fetchBigQueryPage jb tok (pageSize cfg) = Inr ([], next) \<Longrightarrow>
     page_loop (Suc n) cfg hc jb tok st = Some (Inr st)"
  by simp

lemma page_loop_page:
  assumes "fetchBigQueryPage jb tok (pageSize cfg) = Inr (rows, next)" "rows \<noteq> []"
    and "process_page cfg hc rows (st\<lparr>totalFetched := totalFetched st + length rows\<rparr>) = Some st3"
  shows "page_loop (Suc n) cfg hc jb tok st =
     (if next = None then Some (Inr st3) else page_loop n cfg hc jb next st3)"
  using assms by (simp add: Let_def)

text \<open>
  With a positive wave size, the job alone decides how the page loop ends; the CRM
  client and the state play no role.
\<close>

lemma page_loop_outcome:
  assumes "0 < updateBatchSize cfg"
  shows "map_option (case_sum Some (\<lambda>st'. None)) (page_loop n cfg hc jb tok st)
     = map_option (map_option PageFetchFailed) (paging_outcome n (pageSize cfg) jb tok)"
proof (induction n arbitrary: tok st)
  case 0
  show ?case by simp
next
  case (Suc n)
  show ?case
  proof (cases "fetchBigQueryPage jb tok (pageSize cfg)")
    case (Inl e)
    then show ?thesis by simp
  next
    case (Inr resp)
    obtain rows "next" where resp: "resp = (rows, next)" by (cases resp)
    show ?thesis
    proof (cases "rows = []")
      case True
      then show ?thesis using Inr resp by simp
    next
      case False
      obtain st3 where st3: "process_page cfg hc rows (st\<lparr>totalFetched := totalFetched st + length rows\<rparr>) = Some st3"
        using process_page_effect [OF assms] by blast
      have "page_loop (Suc n) cfg hc jb tok st =
          (if next = None then Some (Inr st3) else page_loop n cfg hc jb next st3)"
        using page_loop_page [OF _ False st3] Inr resp by simp
      then show ?thesis using Suc.IH [of "next" st3] Inr resp False by simp
    qed
  qed
qed

lemma page_loop_fetched:
  assumes "0 < updateBatchSize cfg" "page_loop n cfg hc jb tok st = Some (Inr st')"
  shows "totalFetched st' = totalFetched st + length (row_stream n (pageSize cfg) jb tok)"
  using assms(2)
proof (induction n arbitrary: tok st)
  case 0
  then show ?case by simp
next
  case (Suc n)
  show ?case
  proof (cases "fetchBigQueryPage jb tok (pageSize cfg)")
    case (Inl e)
    then show ?thesis using Suc.prems by simp
  next
    case (Inr resp)
    obtain rows "next" where resp: "resp = (rows, next)" by (cases resp)
    show ?thesis
    proof (cases "rows = []")
      case True
      then show ?thesis using Inr resp Suc.prems by auto
    next
      case False
      obtain st3 where st3: "process_page cfg hc rows (st\<lparr>totalFetched := totalFetched st + length rows\<rparr>) = Some st3"
        and f: "totalFetched st3 = totalFetched st + length rows"
        using process_page_effect [OF assms(1), of hc rows "st\<lparr>totalFetched := totalFetched st + length rows\<rparr>"]
        by auto
      have eq: "page_loop (Suc n) cfg hc jb tok st =
          (if next = None then Some (Inr st3) else page_loop n cfg hc jb next st3)"
        using page_loop_page [OF _ False st3] Inr resp by simp
      show ?thesis
      proof (cases "next = None")
        case True
        then show ?thesis using eq Suc.prems f Inr resp False by simp
      next
        case more: False
        have "page_loop (Suc n) cfg hc jb tok st = page_loop n cfg hc jb next st3"
          using eq more by (simp del: page_loop.simps)
        then have "page_loop n cfg hc jb next st3 = Some (Inr st')"
          using Suc.prems by (simp del: page_loop.simps)
        then have "totalFetched st' = totalFetched st3 + length (row_stream n (pageSize cfg) jb next)"
          by (rule Suc.IH)
        then show ?thesis using f Inr resp \<open>rows \<noteq> []\<close> more by auto
      qed
    qed
  qed
qed

text \<open>
  Claim C6. Pagination termination: the page loop returns at a page with zero rows,
  whatever the token that came with it, having fetched nothing more; with a positive
  wave size, it returns after a page that comes without a token, and on a job whose
  pages have 5000, 5000 and 0 rows, with tokens on the first two, it returns after
  exactly three fetches with 10000 rows fetched.
\<close>

theorem pagination_termination:
  "(fetchBigQueryPage jb tok (pageSize cfg) = Inr ([], next) \<longrightarrow>
            page_loop (Suc n) cfg hc jb tok st = Some (Inr st))
    \<and> (0 < updateBatchSize cfg
        \<and> fetchBigQueryPage jb tok (pageSize cfg) = Inr (rows, None) \<longrightarrow>
         (\<exists>st'. page_loop (Suc n) cfg hc jb tok st = Some (Inr st')
                \<and> totalFetched st' = totalFetched st + length rows))
    \<and> (0 < updateBatchSize cfg \<and> length p1 = 5000 \<and> length p2 = 5000
        \<and> fetchBigQueryPage jb None (pageSize cfg) = Inr (p1, Some t1)
        \<and> fetchBigQueryPage jb (Some t1) (pageSize cfg) = Inr (p2, Some t2)
        \<and> fetchBigQueryPage jb (Some t2) (pageSize cfg) = Inr ([], t3) \<longrightarrow>
         page_loop 2 cfg hc jb None st = None
         \<and> (\<exists>st'. page_loop (Suc (Suc (Suc n))) cfg hc jb None st = Some (Inr st')
                \<and> totalFetched st' = totalFetched st + 10000))"
proof (intro conjI impI)
  assume "fetchBigQueryPage jb tok (pageSize cfg) = Inr ([], next)"
  then show "page_loop (Suc n) cfg hc jb tok st = Some (Inr st)" by simp
next
  assume "0 < updateBatchSize cfg
      \<and> fetchBigQueryPage jb tok (pageSize cfg) = Inr (rows, None)"
  then have assms: "0 < updateBatchSize cfg"
    and f: "fetchBigQueryPage jb tok (pageSize cfg) = Inr (rows, None)" by simp_all
  have "paging_outcome (Suc n) (pageSize cfg) jb tok = Some None" using f by simp
  then obtain st' where r: "page_loop (Suc n) cfg hc jb tok st = Some (Inr st')"
    using page_loop_outcome [OF assms, of "Suc n" hc jb tok st]
    by (cases "page_loop (Suc n) cfg hc jb tok st") (auto split: sum.splits)
  have "totalFetched st' = totalFetched st + length rows"
    using page_loop_fetched [OF assms r] f by simp
  then show "\<exists>st'. page_loop (Suc n) cfg hc jb tok st = Some (Inr st')
      \<and> totalFetched st' = totalFetched st + length rows"
    using r by blast
next
  assume a: "0 < updateBatchSize cfg \<and> length p1 = 5000 \<and> length p2 = 5000
        \<and> fetchBigQueryPage jb None (pageSize cfg) = Inr (p1, Some t1)
        \<and> fetchBigQueryPage jb (Some t1) (pageSize cfg) = Inr (p2, Some t2)
        \<and> fetchBigQueryPage jb (Some t2) (pageSize cfg) = Inr ([], t3)"
  then have ne: "p1 \<noteq> []" "p2 \<noteq> []" and assms: "0 < updateBatchSize cfg" by auto
  have two: "paging_outcome (Suc (Suc 0)) (pageSize cfg) jb None = None"
    using a ne by simp
  show "page_loop 2 cfg hc jb None st = None"
    using page_loop_outcome [OF assms, of "Suc (Suc 0)" hc jb None st] two
    by (simp add: numeral_2_eq_2)
  have "paging_outcome (Suc (Suc (Suc n))) (pageSize cfg) jb None = Some None"
    using a ne by simp
  then obtain st' where r: "page_loop (Suc (Suc (Suc n))) cfg hc jb None st = Some (Inr st')"
    using page_loop_outcome [OF assms, of "Suc (Suc (Suc n))" hc jb None st]
    by (cases "page_loop (Suc (Suc (Suc n))) cfg hc jb None st") (auto split: sum.splits)
  have "row_stream (Suc (Suc (Suc n))) (pageSize cfg) jb None = p1 @ p2"
    using a ne by simp
  then have "totalFetched st' = totalFetched st + 10000"
    using page_loop_fetched [OF assms r] a by simp
  then show "\<exists>st'. page_loop (Suc (Suc (Suc n))) cfg hc jb None st = Some (Inr st')
      \<and> totalFetched st' = totalFetched st + 10000"
    using r by blast
qed

theorem pagination_termination_witness:
  "0 < updateBatchSize (scenario_config True ok_client three_page_job)
   \<and> page_loop (Suc 0) (scenario_config True ok_client three_page_job) ok_client three_page_job
        (Some (js ''t2'')) world0 = Some (Inr world0)
   \<and> (\<exists>st'. page_loop (Suc 0) (scenario_config True ok_client three_page_job) ok_client
               three_page_job (Some (js ''t9'')) world0 = Some (Inr st')
             \<and> totalFetched st' = totalFetched world0 + length [row_mx])
   \<and> page_loop 2 (scenario_config True ok_client three_page_job) ok_client three_page_job
        None world0 = None
   \<and> (\<exists>st'. page_loop (Suc (Suc (Suc 0))) (scenario_config True ok_client three_page_job)
               ok_client three_page_job None world0 = Some (Inr st')
             \<and> totalFetched st' = totalFetched world0 + 10000)"
proof -
  let ?cfg = "scenario_config True ok_client three_page_job"
  have h: "0 < updateBatchSize ?cfg" by (simp add: scenario_config_def)
  have ps: "pageSize ?cfg = 5000" by (simp add: scenario_config_def)
  have f1: "fetchBigQueryPage three_page_job None (pageSize ?cfg) = Inr (page_a, Some (js ''t1''))"
    by (simp add: ps fetchBigQueryPage_def three_page_job_def table_job_def js_def)
  have f2: "fetchBigQueryPage three_page_job (Some (js ''t1'')) (pageSize ?cfg)
      = Inr (page_b, Some (js ''t2''))"
    by (simp add: ps fetchBigQueryPage_def three_page_job_def table_job_def js_def)
  have f3: "fetchBigQueryPage three_page_job (Some (js ''t2'')) (pageSize ?cfg)
      = Inr ([], Some (js ''t3''))"
    by (simp add: ps fetchBigQueryPage_def three_page_job_def table_job_def js_def)
  have f4: "fetchBigQueryPage three_page_job (Some (js ''t9'')) (pageSize ?cfg)
      = Inr ([row_mx], None)"
    by (simp add: ps fetchBigQueryPage_def three_page_job_def table_job_def js_def)
  have l: "length page_a = 5000 \<and> length page_b = 5000"
    by (simp add: page_a_def page_b_def)
  have a: "page_loop (Suc 0) ?cfg ok_client three_page_job (Some (js ''t2'')) world0
      = Some (Inr world0)"
    using pagination_termination [of three_page_job "Some (js ''t2'')" ?cfg "Some (js ''t3'')"] f3
    by blast
  have b: "\<exists>st'. page_loop (Suc 0) ?cfg ok_client three_page_job (Some (js ''t9'')) world0
      = Some (Inr st') \<and> totalFetched st' = totalFetched world0 + length [row_mx]"
    using pagination_termination [of three_page_job "Some (js ''t9'')" ?cfg _ _ _ _ "[row_mx]"] f4 h
    by blast
  have c: "page_loop 2 ?cfg ok_client three_page_job None world0 = None
    \<and> (\<exists>st'. page_loop (Suc (Suc (Suc 0))) ?cfg ok_client three_page_job None world0
          = Some (Inr st') \<and> totalFetched st' = totalFetched world0 + 10000)"
    using pagination_termination [of three_page_job _ ?cfg _ _ _ _ _ page_a page_b
        "js ''t1''" "js ''t2''" "Some (js ''t3'')"] f1 f2 f3 l h
    by blast
  show ?thesis using h a b c by blast
qed

section \<open>Failure of one update\<close>





lemmas run_eval =
  build_updates_def build_update_def set_add_def fetchBigQueryPage_def
  updateSingleByObjectType_def errText_def


section \<open>Duplicates within a page\<close>

lemma build_update_enqueue:
  assumes "row_id cfg r \<noteq> []"
    and "\<not> (skipAlreadyProcessed cfg \<and> row_id cfg r \<in> set (processed (fst acc)))"
    and "row_props cfg r \<noteq> []"
  shows "build_update cfg r acc = (fst acc, snd acc @ [(row_id cfg r, row_props cfg r)])"
  using assms by (simp add: build_update_def Let_def)

lemma fold_build_update_grows:
  "\<exists>new. snd (fold (build_update cfg) rows acc) = snd acc @ new"
  using fold_build_update_batch [of cfg rows acc] by blast

text \<open>
  Claim C9. Within-page duplicates are dispatched twice: when two rows \<open>r1\<close> and \<open>r2\<close> of
  one page have the same non-blank identifier, both pass the membership test and both
  have a non-empty property mapping, then both are among the pending updates of the
  page; scanning \<open>r1\<close> does not add the identifier to the processed set; and in apply mode
  (with a worker and a positive wave size) the page issues an update call for each of
  the two, after which the identifier is in the processed set.
\<close>

theorem within_page_duplicates:
  assumes "row_id cfg r1 = x" and "row_id cfg r2 = x" and "x \<noteq> []"
    and "row_props cfg r1 \<noteq> []" and "row_props cfg r2 \<noteq> []"
    and "\<not> (skipAlreadyProcessed cfg
            \<and> x \<in> set (processed (fst (fold (build_update cfg) (pre @ r1 # mid) (st, [])))))"
  shows "(\<exists>b1 b2 b3. snd (build_updates cfg (pre @ r1 # mid @ r2 # post) st)
            = b1 @ (x, row_props cfg r1) # b2 @ (x, row_props cfg r2) # b3)
    \<and> processed (fst (build_update cfg r1 (fold (build_update cfg) pre (st, []))))
        = processed (fst (fold (build_update cfg) pre (st, [])))
    \<and> (apply_mode cfg \<and> 0 < updateConcurrency cfg \<and> 0 < updateBatchSize cfg \<longrightarrow>
         (\<exists>st' c1 c2 c3. process_page cfg hc (pre @ r1 # mid @ r2 # post) st = Some st'
            \<and> hs_calls st' = hs_calls st @ c1 @ (x, row_props cfg r1) # c2 @ (x, row_props cfg r2) # c3
            \<and> x \<in> set (processed st')))"
proof -
  let ?f = "build_update cfg"
  let ?a0 = "fold ?f pre (st, [])"
  let ?a1 = "?f r1 ?a0"
  let ?a2 = "fold ?f mid ?a1"
  let ?a3 = "?f r2 ?a2"
  let ?rows = "pre @ r1 # mid @ r2 # post"
  have a2: "fold ?f (pre @ r1 # mid) (st, []) = ?a2" by simp
  have m1: "set (processed (fst ?a0)) \<subseteq> set (processed (fst ?a1))"
    by (rule build_update_processed_mono)
  have m2: "set (processed (fst ?a1)) \<subseteq> set (processed (fst ?a2))"
    using fold_build_update_frame [of cfg mid ?a1] by blast
  have n2: "\<not> (skipAlreadyProcessed cfg \<and> row_id cfg r2 \<in> set (processed (fst ?a2)))"
    using assms(2,6) a2 by simp
  then have n1: "\<not> (skipAlreadyProcessed cfg \<and> row_id cfg r1 \<in> set (processed (fst ?a0)))"
    using m1 m2 assms(1,2) by auto
  have e1: "?a1 = (fst ?a0, snd ?a0 @ [(x, row_props cfg r1)])"
    using build_update_enqueue [OF _ n1 assms(4)] assms(1,3) by simp
  have e3: "?a3 = (fst ?a2, snd ?a2 @ [(x, row_props cfg r2)])"
    using build_update_enqueue [OF _ n2 assms(5)] assms(2,3) by simp
  obtain b2 where b2: "snd ?a2 = snd ?a1 @ b2"
    using fold_build_update_grows [of cfg mid ?a1] by blast
  obtain b3 where b3: "snd (fold ?f post ?a3) = snd ?a3 @ b3"
    using fold_build_update_grows [of cfg post ?a3] by blast
  have whole: "build_updates cfg ?rows st = fold ?f post ?a3"
    by (simp add: build_updates_def)
  have batch: "snd (build_updates cfg ?rows st)
      = snd ?a0 @ (x, row_props cfg r1) # b2 @ (x, row_props cfg r2) # b3"
    using b2 b3 e1 e3 by (simp add: whole)
  have p1: "processed (fst ?a1) = processed (fst ?a0)" using e1 by simp
  have disp: "apply_mode cfg \<and> 0 < updateConcurrency cfg \<and> 0 < updateBatchSize cfg \<longrightarrow>
         (\<exists>st' c1 c2 c3. process_page cfg hc ?rows st = Some st'
            \<and> hs_calls st' = hs_calls st @ c1 @ (x, row_props cfg r1) # c2 @ (x, row_props cfg r2) # c3
            \<and> x \<in> set (processed st'))"
  proof
    assume h: "apply_mode cfg \<and> 0 < updateConcurrency cfg \<and> 0 < updateBatchSize cfg"
    then have bs: "0 < updateBatchSize cfg" by simp
    obtain st' where r: "process_page cfg hc ?rows st = Some st'"
      and c: "hs_calls st' = hs_calls st @
          (if apply_mode cfg \<and> 0 < updateConcurrency cfg then snd (build_updates cfg ?rows st) else [])"
      and p: "set (processed st') = set (processed (fst (build_updates cfg ?rows st))) \<union>
          (if apply_mode cfg \<and> updateConcurrency cfg = 0 then {}
           else fst ` set (snd (build_updates cfg ?rows st)))"
      using process_page_effect [OF bs, of hc ?rows st] by blast
    have "hs_calls st' = hs_calls st @ snd ?a0 @ (x, row_props cfg r1) # b2 @ (x, row_props cfg r2) # b3"
      using c h batch by simp
    moreover have "x \<in> set (processed st')"
      using p h batch by force
    ultimately show "\<exists>st' c1 c2 c3. process_page cfg hc ?rows st = Some st'
            \<and> hs_calls st' = hs_calls st @ c1 @ (x, row_props cfg r1) # c2 @ (x, row_props cfg r2) # c3
            \<and> x \<in> set (processed st')"
      using r by blast
  qed
  show ?thesis using batch p1 disp by blast
qed

theorem within_page_duplicates_witness:
  "row_id (scenario_config True ok_client one_page_job) row_us = js ''1''
   \<and> js ''1'' \<noteq> []
   \<and> row_props (scenario_config True ok_client one_page_job) row_us \<noteq> []
   \<and> \<not> (skipAlreadyProcessed (scenario_config True ok_client one_page_job)
          \<and> js ''1'' \<in> set (processed (fst (fold
               (build_update (scenario_config True ok_client one_page_job)) ([] @ row_us # [])
               (world0, [])))))
   \<and> (\<exists>st' c1 c2 c3. process_page (scenario_config True ok_client one_page_job) ok_client
           ([] @ row_us # [] @ row_us # []) world0 = Some st'
         \<and> hs_calls st' = hs_calls world0
              @ c1 @ (js ''1'', row_props (scenario_config True ok_client one_page_job) row_us)
              # c2 @ (js ''1'', row_props (scenario_config True ok_client one_page_job) row_us) # c3
         \<and> js ''1'' \<in> set (processed st'))"
proof -
  let ?cfg = "scenario_config True ok_client one_page_job"
  have h1: "row_id ?cfg row_us = js ''1''" by (simp add: example_eval mapper_eval)
  have h3: "js ''1'' \<noteq> []" by (simp add: js_def)
  have h4: "row_props ?cfg row_us \<noteq> []" by (simp add: example_eval mapper_eval)
  have h6: "\<not> (skipAlreadyProcessed ?cfg
            \<and> js ''1'' \<in> set (processed (fst (fold (build_update ?cfg) ([] @ row_us # []) (world0, [])))))"
    by (simp add: run_eval example_eval mapper_eval Let_def)
  have c: "apply_mode ?cfg \<and> 0 < updateConcurrency ?cfg \<and> 0 < updateBatchSize ?cfg"
    by (simp add: scenario_config_def)
  show ?thesis
    using within_page_duplicates [OF h1 h1 h3 h4 h4 h6, of "[]" ok_client] h1 h3 h4 h6 c
    by blast
qed

section \<open>The processed set and the checkpoint file\<close>

lemma build_update_processed:
  "set (processed (fst (build_update cfg r acc))) =
     (if row_id cfg r \<noteq> [] \<and> \<not> (skipAlreadyProcessed cfg \<and> row_id cfg r \<in> set (processed (fst acc)))
         \<and> row_props cfg r = []
      then insert (row_id cfg r) (set (processed (fst acc)))
      else set (processed (fst acc)))"
  by (auto simp: build_update_def Let_def)

lemma fold_build_update_processed:
  "set (processed (fst (fold (build_update cfg) rows acc))) =
     set (processed (fst acc))
     \<union> {row_id cfg r | r. r \<in> set rows \<and> row_id cfg r \<noteq> [] \<and> row_props cfg r = []}"
proof (induction rows arbitrary: acc)
  case Nil
  show ?case by simp
next
  case (Cons r rows)
  have "set (processed (fst (build_update cfg r acc))) =
      set (processed (fst acc)) \<union> (if row_id cfg r \<noteq> [] \<and> row_props cfg r = [] then {row_id cfg r} else {})"
    by (auto simp: build_update_processed)
  then show ?case using Cons.IH [of "build_update cfg r acc"]
    by (simp split: if_splits) blast+
qed

lemma build_updates_processed:
  "set (processed (fst (build_updates cfg rows st))) =
     set (processed st)
     \<union> {row_id cfg r | r. r \<in> set rows \<and> row_id cfg r \<noteq> [] \<and> row_props cfg r = []}"
  using fold_build_update_processed [of cfg rows "(st, [])"] by (simp add: build_updates_def)

lemma build_updates_stored:
  "stored_ids cfg (fst (build_updates cfg rows st)) = stored_ids cfg st"
  by (simp add: stored_ids_def build_updates_frame)

lemma wave_loop_inv:
  assumes "wave_loop cfg hc batchUpdates i st = Some st'"
  shows "set (processed st) \<subseteq> set (processed st')"
    and "stored_ids cfg st \<subseteq> set (processed st) \<Longrightarrow> stored_ids cfg st' \<subseteq> set (processed st')"
proof -
  have "set (processed st) \<subseteq> set (processed st')
    \<and> (stored_ids cfg st \<subseteq> set (processed st) \<longrightarrow> stored_ids cfg st' \<subseteq> set (processed st'))"
  proof (cases "0 < updateBatchSize cfg")
    case True
    show ?thesis
      using wave_loop_effect [OF True, of hc batchUpdates i st] assms
      by (cases "i < length batchUpdates") auto
  next
    case False
    then have "st' = st" using assms
      by (subst (asm) wave_loop.simps) (simp split: if_splits)
    then show ?thesis by simp
  qed
  then show "set (processed st) \<subseteq> set (processed st')"
    and "stored_ids cfg st \<subseteq> set (processed st) \<Longrightarrow> stored_ids cfg st' \<subseteq> set (processed st')"
    by simp_all
qed

lemma process_page_inv:
  assumes "process_page cfg hc rows st = Some st'"
  shows "set (processed st) \<subseteq> set (processed st')"
    and "stored_ids cfg st \<subseteq> set (processed st) \<Longrightarrow> stored_ids cfg st' \<subseteq> set (processed st')"
proof -
  let ?sc = "build_updates cfg rows st"
  have w: "wave_loop cfg hc (snd ?sc) 0 (fst ?sc) = Some st'"
    using assms by (simp add: process_page_def Let_def)
  have m: "set (processed st) \<subseteq> set (processed (fst ?sc))" by (rule build_updates_frame)
  show "set (processed st) \<subseteq> set (processed st')"
    using wave_loop_inv(1) [OF w] m by blast
  assume "stored_ids cfg st \<subseteq> set (processed st)"
  then have "stored_ids cfg (fst ?sc) \<subseteq> set (processed (fst ?sc))"
    using m by (auto simp: build_updates_stored)
  then show "stored_ids cfg st' \<subseteq> set (processed st')"
    by (rule wave_loop_inv(2) [OF w])
qed

lemma page_loop_inv:
  assumes "page_loop n cfg hc jb tok st = Some (Inr st')"
  shows "set (processed st) \<subseteq> set (processed st')
    \<and> (stored_ids cfg st \<subseteq> set (processed st) \<longrightarrow> stored_ids cfg st' \<subseteq> set (processed st'))"
  using assms
proof (induction n arbitrary: tok st)
  case 0
  then show ?case by simp
next
  case (Suc n)
  show ?case
  proof (cases "fetchBigQueryPage jb tok (pageSize cfg)")
    case (Inl e)
    then show ?thesis using Suc.prems by simp
  next
    case (Inr resp)
    obtain rows "next" where resp: "resp = (rows, next)" by (cases resp)
    let ?st1 = "st\<lparr>totalFetched := totalFetched st + length rows\<rparr>"
    have s1: "stored_ids cfg ?st1 = stored_ids cfg st" "processed ?st1 = processed st"
      by (simp_all add: stored_ids_def)
    show ?thesis
    proof (cases "rows = []")
      case True
      then have "st' = st" using Inr resp Suc.prems by simp
      then show ?thesis by simp
    next
      case False
      show ?thesis
      proof (cases "process_page cfg hc rows ?st1")
        case None
        then show ?thesis using Inr resp False Suc.prems by (simp add: Let_def)
      next
        case (Some st3)
        note i1 = process_page_inv [OF Some]
        have eq: "page_loop (Suc n) cfg hc jb tok st =
            (if next = None then Some (Inr st3) else page_loop n cfg hc jb next st3)"
          using page_loop_page [OF _ False Some] Inr resp by simp
        show ?thesis
        proof (cases "next = None")
          case True
          then have "st' = st3" using eq Suc.prems by (simp del: page_loop.simps)
          then show ?thesis using i1 s1 by simp
        next
          case more: False
          have "page_loop (Suc n) cfg hc jb tok st = page_loop n cfg hc jb next st3"
            using eq more by (simp del: page_loop.simps)
          then have "page_loop n cfg hc jb next st3 = Some (Inr st')"
            using Suc.prems by (simp del: page_loop.simps)
          then have "set (processed st3) \<subseteq> set (processed st')
            \<and> (stored_ids cfg st3 \<subseteq> set (processed st3) \<longrightarrow> stored_ids cfg st' \<subseteq> set (processed st'))"
            by (rule Suc.IH)
          then show ?thesis using i1 s1 by auto
        qed
      qed
    qed
  qed
qed

lemma set_fold_set_add: "set (fold set_add arr acc) = set arr \<union> set acc"
  by (induction arr arbitrary: acc) auto

lemma set_loadCheckpoint: "set (loadCheckpoint (checkpointPath cfg) world) = stored_ids cfg world"
  by (simp add: loadCheckpoint_def stored_ids_def new_Set_def set_fold_set_add
      split: option.splits file_content.splits)

lemma initial_state_frame:
  "processed (initial_state cfg world) = loadCheckpoint (checkpointPath cfg) world"
  "checkpoint_file (initial_state cfg world) = checkpoint_file world"
  "csv_file (initial_state cfg world) = csv_file world"
  "sql_files (initial_state cfg world) = sql_files world"
  "hs_calls (initial_state cfg world) = hs_calls world"
  "totalFetched (initial_state cfg world) = 0"
  "totalAttempted (initial_state cfg world) = 0"
  "totalUpdated (initial_state cfg world) = 0"
  "totalSkipped (initial_state cfg world) = 0"
  "errors (initial_state cfg world) = []"
  by (simp_all add: initial_state_def)

lemma initial_state_stored:
  "stored_ids cfg (initial_state cfg world) = set (processed (initial_state cfg world))"
  by (simp add: initial_state_frame set_loadCheckpoint) (simp add: stored_ids_def initial_state_frame)

text \<open>A run that returns a summary has passed the checks, read its query, got a job
  and run the page loop from the initial state.\<close>

lemma sync_returns:
  assumes "syncHubSpotPropertiesFromBigQuery n cfg world = Some (Inr st')"
  shows "\<exists>hc bq query jb. hubspotClient cfg = Some hc \<and> bigqueryClient cfg = Some bq
     \<and> (if endsWith (trim (sql cfg)) (js ''.sql'') then sql_files world (sql cfg)
         else Some (sql cfg)) = Some query
     \<and> createQueryJob bq query = Inr jb
     \<and> syncHubSpotPropertiesFromBigQuery n cfg world
         = page_loop n cfg hc jb None (initial_state cfg world)"
  using assms
  by (auto simp: syncHubSpotPropertiesFromBigQuery_def
      split: if_splits option.splits sum.splits)

lemmas sync_eval =
  syncHubSpotPropertiesFromBigQuery_def initial_state_def loadCheckpoint_def new_Set_def
  endsWith_def process_page_def wave_loop.simps slice_def process_wave_def
  runWithConcurrency_def worker_def dry_run_item_def writeCsvAppend_def saveCheckpoint_def
  stored_ids_def one_page_job_def row_de_def

text \<open>
  Claim C7. The processed set only grows and an identifier enters it in the terminal
  cases only. Scanning a row adds its identifier exactly when the row is discarded as
  empty; the worker adds the identifier of its item, whether the update resolved or
  rejected; the dry-run path adds the identifier of its item; nothing else changes the
  set. So a page adds the identifiers of its blank-only rows and of its dispatched
  updates, and at the end of a run the set holds all that the checkpoint gave at the
  start.
\<close>

theorem processed_set_monotone:
  "set (processed (fst (build_update cfg r (st, b)))) =
     (if row_id cfg r \<noteq> [] \<and> \<not> (skipAlreadyProcessed cfg \<and> row_id cfg r \<in> set (processed st))
         \<and> row_props cfg r = []
      then insert (row_id cfg r) (set (processed st)) else set (processed st))
   \<and> set (processed (fst (worker cfg hc w (st, csvRows)))) = insert (fst w) (set (processed st))
   \<and> set (processed (dry_run_item cfg w st)) = insert (fst w) (set (processed st))
   \<and> set (processed (process_wave cfg hc wave st)) =
       set (processed st) \<union> (if apply_mode cfg \<and> updateConcurrency cfg = 0 then {} else fst ` set wave)
   \<and> (0 < updateBatchSize cfg \<longrightarrow>
        (\<exists>s. process_page cfg hc page st = Some s
           \<and> set (processed s) =
               set (processed st)
               \<union> {row_id cfg r | r. r \<in> set page \<and> row_id cfg r \<noteq> [] \<and> row_props cfg r = []}
               \<union> (if apply_mode cfg \<and> updateConcurrency cfg = 0 then {}
                  else fst ` set (snd (build_updates cfg page st)))))
   \<and> (page_loop n cfg hc jb tok st = Some (Inr st') \<longrightarrow> set (processed st) \<subseteq> set (processed st'))
   \<and> (syncHubSpotPropertiesFromBigQuery n cfg world = Some (Inr st'') \<longrightarrow>
        set (loadCheckpoint (checkpointPath cfg) world) \<subseteq> set (processed st''))"
proof -
  have a: "set (processed (fst (build_update cfg r (st, b)))) =
     (if row_id cfg r \<noteq> [] \<and> \<not> (skipAlreadyProcessed cfg \<and> row_id cfg r \<in> set (processed st))
         \<and> row_props cfg r = []
      then insert (row_id cfg r) (set (processed st)) else set (processed st))"
    using build_update_processed [of cfg r "(st, b)"] by simp
  have b: "set (processed (fst (worker cfg hc w (st, csvRows)))) = insert (fst w) (set (processed st))"
    by (simp add: worker_frame)
  have c: "set (processed (dry_run_item cfg w st)) = insert (fst w) (set (processed st))"
    by (simp add: dry_run_item_frame)
  have d: "set (processed (process_wave cfg hc wave st)) =
       set (processed st) \<union> (if apply_mode cfg \<and> updateConcurrency cfg = 0 then {} else fst ` set wave)"
    by (rule process_wave_processed)
  have e: "0 < updateBatchSize cfg \<longrightarrow>
        (\<exists>s. process_page cfg hc page st = Some s
           \<and> set (processed s) =
               set (processed st)
               \<union> {row_id cfg r | r. r \<in> set page \<and> row_id cfg r \<noteq> [] \<and> row_props cfg r = []}
               \<union> (if apply_mode cfg \<and> updateConcurrency cfg = 0 then {}
                  else fst ` set (snd (build_updates cfg page st))))"
  proof
    assume bs: "0 < updateBatchSize cfg"
    obtain s where "process_page cfg hc page st = Some s"
      and "set (processed s) = set (processed (fst (build_updates cfg page st))) \<union>
          (if apply_mode cfg \<and> updateConcurrency cfg = 0 then {}
           else fst ` set (snd (build_updates cfg page st)))"
      using process_page_effect [OF bs, of hc page st] by blast
    then show "\<exists>s. process_page cfg hc page st = Some s
           \<and> set (processed s) =
               set (processed st)
               \<union> {row_id cfg r | r. r \<in> set page \<and> row_id cfg r \<noteq> [] \<and> row_props cfg r = []}
               \<union> (if apply_mode cfg \<and> updateConcurrency cfg = 0 then {}
                  else fst ` set (snd (build_updates cfg page st)))"
      by (simp add: build_updates_processed)
  qed
  have f: "page_loop n cfg hc jb tok st = Some (Inr st') \<longrightarrow> set (processed st) \<subseteq> set (processed st')"
    using page_loop_inv by blast
  have g: "syncHubSpotPropertiesFromBigQuery n cfg world = Some (Inr st'') \<longrightarrow>
        set (loadCheckpoint (checkpointPath cfg) world) \<subseteq> set (processed st'')"
  proof
    assume r: "syncHubSpotPropertiesFromBigQuery n cfg world = Some (Inr st'')"
    then obtain hc' jb' where "page_loop n cfg hc' jb' None (initial_state cfg world) = Some (Inr st'')"
      using sync_returns [OF r] by auto
    then have "set (processed (initial_state cfg world)) \<subseteq> set (processed st'')"
      using page_loop_inv by blast
    then show "set (loadCheckpoint (checkpointPath cfg) world) \<subseteq> set (processed st'')"
      by (simp add: initial_state_frame)
  qed
  show ?thesis using a b c d e f g by blast
qed

lemma example_run_returns:
  "\<exists>s. syncHubSpotPropertiesFromBigQuery (Suc 0) (scenario_config True ok_client one_page_job)
         world_with_checkpoint = Some (Inr s)"
  by (simp add: sync_eval world_with_checkpoint_def run_eval example_eval mapper_eval Let_def)

theorem processed_set_monotone_witness:
  "\<exists>s. syncHubSpotPropertiesFromBigQuery (Suc 0) (scenario_config True ok_client one_page_job)
         world_with_checkpoint = Some (Inr s)
       \<and> js ''9'' \<in> set (processed s)"
proof -
  let ?cfg = "scenario_config True ok_client one_page_job"
  obtain s where r: "syncHubSpotPropertiesFromBigQuery (Suc 0) ?cfg world_with_checkpoint = Some (Inr s)"
    using example_run_returns by blast
  have l: "set (loadCheckpoint (checkpointPath ?cfg) world_with_checkpoint) = {js ''9''}"
    by (simp add: loadCheckpoint_def world_with_checkpoint_def world0_def scenario_config_def
        new_Set_def set_add_def js_def)
  have "set (loadCheckpoint (checkpointPath ?cfg) world_with_checkpoint) \<subseteq> set (processed s)"
    using processed_set_monotone [where cfg = ?cfg and n = "Suc 0" and world = world_with_checkpoint
        and st'' = s] r
    by blast
  then show ?thesis using r l by auto
qed

text \<open>
  Claim C10. The checkpoint file lags behind the processed set. The identifiers held by
  the file are among the processed ones when the run starts, after every step of the
  run and when it returns; a page that yields no pending update saves nothing; and the
  two differ at the end of a run whose only page is one blank-only row, where the
  identifier is processed and no file has been written.
\<close>

theorem checkpoint_file_lag:
  "stored_ids cfg (initial_state cfg world) \<subseteq> set (processed (initial_state cfg world))
   \<and> (stored_ids cfg st \<subseteq> set (processed st) \<longrightarrow>
        stored_ids cfg (fst (build_update cfg r (st, b)))
          \<subseteq> set (processed (fst (build_update cfg r (st, b)))))
   \<and> (stored_ids cfg st \<subseteq> set (processed st) \<longrightarrow>
        stored_ids cfg (fst (worker cfg hc w (st, csvRows)))
          \<subseteq> set (processed (fst (worker cfg hc w (st, csvRows)))))
   \<and> (stored_ids cfg st \<subseteq> set (processed st) \<longrightarrow>
        stored_ids cfg (dry_run_item cfg w st) \<subseteq> set (processed (dry_run_item cfg w st)))
   \<and> stored_ids cfg (process_wave cfg hc wave st) \<subseteq> set (processed (process_wave cfg hc wave st))
   \<and> (stored_ids cfg st \<subseteq> set (processed st) \<and> page_loop n cfg hc jb tok st = Some (Inr st') \<longrightarrow>
        stored_ids cfg st' \<subseteq> set (processed st'))
   \<and> (syncHubSpotPropertiesFromBigQuery n cfg world = Some (Inr st'') \<longrightarrow>
        stored_ids cfg st'' \<subseteq> set (processed st''))
   \<and> (0 < updateBatchSize cfg \<and> snd (build_updates cfg page st) = [] \<longrightarrow>
        (\<exists>s. process_page cfg hc page st = Some s \<and> checkpoint_file s = checkpoint_file st
           \<and> set (processed s) = set (processed st)
               \<union> {row_id cfg r | r. r \<in> set page \<and> row_id cfg r \<noteq> [] \<and> row_props cfg r = []}))
   \<and> (\<exists>s. syncHubSpotPropertiesFromBigQuery (Suc 0) (scenario_config True ok_client blank_page_job)
             world0 = Some (Inr s)
          \<and> processed s = [js ''2'']
          \<and> stored_ids (scenario_config True ok_client blank_page_job) s = {})"
proof -
  have a: "stored_ids cfg (initial_state cfg world) \<subseteq> set (processed (initial_state cfg world))"
    by (simp add: initial_state_stored)
  have b: "stored_ids cfg st \<subseteq> set (processed st) \<longrightarrow>
        stored_ids cfg (fst (build_update cfg r (st, b)))
          \<subseteq> set (processed (fst (build_update cfg r (st, b))))"
    using build_update_processed_mono [of "(st, b)" cfg r]
    by (auto simp: stored_ids_def build_update_frame)
  have c: "stored_ids cfg st \<subseteq> set (processed st) \<longrightarrow>
        stored_ids cfg (fst (worker cfg hc w (st, csvRows)))
          \<subseteq> set (processed (fst (worker cfg hc w (st, csvRows))))"
    by (auto simp: stored_ids_def worker_frame)
  have d: "stored_ids cfg st \<subseteq> set (processed st) \<longrightarrow>
        stored_ids cfg (dry_run_item cfg w st) \<subseteq> set (processed (dry_run_item cfg w st))"
    by (auto simp: stored_ids_def dry_run_item_frame)
  have e: "stored_ids cfg (process_wave cfg hc wave st) \<subseteq> set (processed (process_wave cfg hc wave st))"
    by (simp add: process_wave_stored)
  have f: "stored_ids cfg st \<subseteq> set (processed st) \<and> page_loop n cfg hc jb tok st = Some (Inr st') \<longrightarrow>
        stored_ids cfg st' \<subseteq> set (processed st')"
    using page_loop_inv by blast
  have g: "syncHubSpotPropertiesFromBigQuery n cfg world = Some (Inr st'') \<longrightarrow>
        stored_ids cfg st'' \<subseteq> set (processed st'')"
  proof
    assume r: "syncHubSpotPropertiesFromBigQuery n cfg world = Some (Inr st'')"
    then obtain hc' jb' where "page_loop n cfg hc' jb' None (initial_state cfg world) = Some (Inr st'')"
      using sync_returns [OF r] by auto
    then show "stored_ids cfg st'' \<subseteq> set (processed st'')"
      using page_loop_inv a by blast
  qed
  have h: "0 < updateBatchSize cfg \<and> snd (build_updates cfg page st) = [] \<longrightarrow>
        (\<exists>s. process_page cfg hc page st = Some s \<and> checkpoint_file s = checkpoint_file st
           \<and> set (processed s) = set (processed st)
               \<union> {row_id cfg r | r. r \<in> set page \<and> row_id cfg r \<noteq> [] \<and> row_props cfg r = []})"
  proof
    assume p: "0 < updateBatchSize cfg \<and> snd (build_updates cfg page st) = []"
    then have "process_page cfg hc page st = Some (fst (build_updates cfg page st))"
      by (simp add: process_page_def Let_def wave_loop_done)
    then show "\<exists>s. process_page cfg hc page st = Some s \<and> checkpoint_file s = checkpoint_file st
           \<and> set (processed s) = set (processed st)
               \<union> {row_id cfg r | r. r \<in> set page \<and> row_id cfg r \<noteq> [] \<and> row_props cfg r = []}"
      by (simp add: build_updates_frame build_updates_processed)
  qed
  have i: "\<exists>s. syncHubSpotPropertiesFromBigQuery (Suc 0) (scenario_config True ok_client blank_page_job)
             world0 = Some (Inr s)
          \<and> processed s = [js ''2'']
          \<and> stored_ids (scenario_config True ok_client blank_page_job) s = {}"
    by (simp add: sync_eval blank_page_job_def run_eval example_eval mapper_eval Let_def)
  show ?thesis using a b c d e f g h i by blast
qed

theorem checkpoint_file_lag_witness:
  "\<exists>s. syncHubSpotPropertiesFromBigQuery (Suc 0) (scenario_config True ok_client one_page_job)
         world_with_checkpoint = Some (Inr s)
       \<and> stored_ids (scenario_config True ok_client one_page_job) s \<subseteq> set (processed s)"
proof -
  let ?cfg = "scenario_config True ok_client one_page_job"
  obtain s where r: "syncHubSpotPropertiesFromBigQuery (Suc 0) ?cfg world_with_checkpoint = Some (Inr s)"
    using example_run_returns by blast
  have "stored_ids ?cfg s \<subseteq> set (processed s)"
    using checkpoint_file_lag [where cfg = ?cfg and n = "Suc 0" and world = world_with_checkpoint
        and st'' = s] r
    by blast
  then show ?thesis using r by blast
qed

section \<open>Errors that leave the run\<close>






section \<open>Reruns\<close>

lemma build_update_count:
  "totalSkipped (fst (build_update cfg r acc)) + length (snd (build_update cfg r acc))
     = totalSkipped (fst acc) + length (snd acc) + (if row_id cfg r \<noteq> [] then 1 else 0)"
  by (simp add: build_update_def Let_def)

lemma fold_build_update_count:
  "totalSkipped (fst (fold (build_update cfg) rows acc)) + length (snd (fold (build_update cfg) rows acc))
     = totalSkipped (fst acc) + length (snd acc) + length (filter (\<lambda>r. row_id cfg r \<noteq> []) rows)"
proof (induction rows arbitrary: acc)
  case Nil
  show ?case by simp
next
  case (Cons r rows)
  show ?case
    using Cons.IH [of "build_update cfg r acc"] build_update_count [of cfg r acc]
    by simp
qed

lemma build_updates_count:
  "totalSkipped (fst (build_updates cfg rows st)) + length (snd (build_updates cfg rows st))
     = totalSkipped st + length (filter (\<lambda>r. row_id cfg r \<noteq> []) rows)"
  using fold_build_update_count [of cfg rows "(st, [])"] by (simp add: build_updates_def)

text \<open>
  The scan of a page in a second run, next to the scan of the same page in the first
  run: when the second run's processed set contains the first run's and the identifiers
  of all that the first run enqueues, the second run enqueues nothing and counts every
  row with an identifier as skipped.
\<close>

lemma scan_rerun:
  assumes "skipAlreadyProcessed cfg"
    and "set (processed (fst a1)) \<subseteq> set (processed (fst a2))"
    and "fst ` set (snd (fold (build_update cfg) rows a1)) \<subseteq> set (processed (fst a2))"
  shows "snd (fold (build_update cfg) rows a2) = snd a2
    \<and> totalSkipped (fst (fold (build_update cfg) rows a2))
        = totalSkipped (fst a2) + length (filter (\<lambda>r. row_id cfg r \<noteq> []) rows)
    \<and> set (processed (fst (fold (build_update cfg) rows a1)))
        \<subseteq> set (processed (fst (fold (build_update cfg) rows a2)))"
  using assms(2,3)
proof (induction rows arbitrary: a1 a2)
  case Nil
  then show ?case by simp
next
  case (Cons r rows)
  let ?a1 = "build_update cfg r a1" and ?a2 = "build_update cfg r a2"
  have mono2: "set (processed (fst a2)) \<subseteq> set (processed (fst ?a2))"
    by (rule build_update_processed_mono)
  have fut: "fst ` set (snd (fold (build_update cfg) rows ?a1)) \<subseteq> set (processed (fst ?a2))"
    using Cons.prems(2) mono2 by auto
  obtain new where new: "snd (fold (build_update cfg) rows ?a1) = snd ?a1 @ new"
    using fold_build_update_grows [of cfg rows ?a1] by blast
  have enq: "fst ` set (snd ?a1) \<subseteq> set (processed (fst a2))"
    using Cons.prems(2) new by auto
  have step: "snd ?a2 = snd a2
      \<and> totalSkipped (fst ?a2) = totalSkipped (fst a2) + (if row_id cfg r \<noteq> [] then 1 else 0)
      \<and> set (processed (fst ?a1)) \<subseteq> set (processed (fst ?a2))"
  proof (cases "row_id cfg r = []")
    case True
    then show ?thesis using Cons.prems(1) by (simp add: build_update_def Let_def)
  next
    case id: False
    show ?thesis
    proof (cases "row_id cfg r \<in> set (processed (fst a2))")
      case True
      then show ?thesis using Cons.prems(1) id assms(1)
        by (auto simp: build_update_def Let_def)
    next
      case False
      then have n1: "row_id cfg r \<notin> set (processed (fst a1))" using Cons.prems(1) by blast
      show ?thesis
      proof (cases "row_props cfg r = []")
        case True
        then show ?thesis using Cons.prems(1) id False n1
          by (auto simp: build_update_def Let_def)
      next
        case props: False
        have "snd ?a1 = snd a1 @ [(row_id cfg r, row_props cfg r)]"
          using id n1 props by (simp add: build_update_def Let_def)
        then have "row_id cfg r \<in> set (processed (fst a2))" using enq by auto
        then show ?thesis using False by simp
      qed
    qed
  qed
  have sub: "set (processed (fst ?a1)) \<subseteq> set (processed (fst ?a2))" using step by simp
  show ?case
    using Cons.IH [OF sub fut] step by simp
qed

lemma page_loop_first_run:
  assumes bs: "0 < updateBatchSize cfg"
    and disp: "apply_mode cfg \<longrightarrow> 0 < updateConcurrency cfg"
  shows "page_loop n cfg hc jb tok st = Some (Inr st') \<Longrightarrow>
     stored_ids cfg st \<subseteq> set (processed st) \<Longrightarrow>
     sql_files st' = sql_files st \<and> stored_ids cfg st \<subseteq> stored_ids cfg st'
     \<and> totalSkipped st' + totalAttempted st'
         = totalSkipped st + totalAttempted st
           + length (filter (\<lambda>r. row_id cfg r \<noteq> []) (row_stream n (pageSize cfg) jb tok))"
proof (induction n arbitrary: tok st)
  case 0
  then show ?case by simp
next
  case (Suc n)
  show ?case
  proof (cases "fetchBigQueryPage jb tok (pageSize cfg)")
    case (Inl e)
    then show ?thesis using Suc.prems by simp
  next
    case (Inr resp)
    obtain rows "next" where resp: "resp = (rows, next)" by (cases resp)
    let ?st1 = "st\<lparr>totalFetched := totalFetched st + length rows\<rparr>"
    have s1: "stored_ids cfg ?st1 = stored_ids cfg st" "processed ?st1 = processed st"
      by (simp_all add: stored_ids_def)
    show ?thesis
    proof (cases "rows = []")
      case True
      then have "st' = st" using Inr resp Suc.prems by simp
      then show ?thesis using Inr resp True by simp
    next
      case False
      let ?sc = "build_updates cfg rows ?st1"
      obtain st3 where pp: "process_page cfg hc rows ?st1 = Some st3"
        and sq: "sql_files st3 = sql_files ?st1"
        and sk: "totalSkipped st3 = totalSkipped (fst ?sc)"
        and at: "totalAttempted st3 = totalAttempted ?st1 +
          (if apply_mode cfg \<and> updateConcurrency cfg = 0 then 0 else length (snd ?sc))"
        and sto: "(if snd ?sc \<noteq> []
           then stored_ids cfg st3 = (if checkpointPath cfg = [] then {} else set (processed st3))
           else st3 = fst ?sc)"
        using process_page_effect [OF bs, of hc rows ?st1] by blast
      note inv = process_page_inv [OF pp]
      have inv3: "stored_ids cfg st3 \<subseteq> set (processed st3)"
        using inv(2) s1 Suc.prems(2) by simp
      have mono3: "stored_ids cfg st \<subseteq> stored_ids cfg st3"
      proof (cases "snd ?sc \<noteq> []")
        case True
        then have "stored_ids cfg st3 = (if checkpointPath cfg = [] then {} else set (processed st3))"
          using sto by simp
        then show ?thesis using inv(1) s1 Suc.prems(2) by (auto simp: stored_ids_def)
      next
        case False
        then have "st3 = fst ?sc" using sto by simp
        then show ?thesis by (simp add: build_updates_stored s1)
      qed
      have cnt3: "totalSkipped st3 + totalAttempted st3
          = totalSkipped st + totalAttempted st + length (filter (\<lambda>r. row_id cfg r \<noteq> []) rows)"
      proof -
        have "totalAttempted st3 = totalAttempted st + length (snd ?sc)"
          using at disp by (cases "apply_mode cfg") auto
        then show ?thesis using build_updates_count [of cfg rows ?st1] sk by simp
      qed
      have eq: "page_loop (Suc n) cfg hc jb tok st =
          (if next = None then Some (Inr st3) else page_loop n cfg hc jb next st3)"
        using page_loop_page [OF _ False pp] Inr resp by simp
      show ?thesis
      proof (cases "next = None")
        case True
        then have "st' = st3" using eq Suc.prems(1) by (simp del: page_loop.simps)
        then show ?thesis using sq mono3 cnt3 Inr resp True by simp
      next
        case more: False
        have "page_loop (Suc n) cfg hc jb tok st = page_loop n cfg hc jb next st3"
          using eq more by (simp del: page_loop.simps)
        then have "page_loop n cfg hc jb next st3 = Some (Inr st')"
          using Suc.prems(1) by (simp del: page_loop.simps)
        then have "sql_files st' = sql_files st3 \<and> stored_ids cfg st3 \<subseteq> stored_ids cfg st'
          \<and> totalSkipped st' + totalAttempted st'
             = totalSkipped st3 + totalAttempted st3
               + length (filter (\<lambda>r. row_id cfg r \<noteq> []) (row_stream n (pageSize cfg) jb next))"
          using inv3 by (rule Suc.IH)
        then show ?thesis using sq mono3 cnt3 Inr resp False more by auto
      qed
    qed
  qed
qed

text \<open>
  The page loop of a second run, next to the page loop of the first run on the same job:
  when the second run starts with a processed set that contains the first run's and the
  identifiers of the checkpoint file that the first run leaves, the second run issues no
  call, writes nothing and counts every row with an identifier as skipped.
\<close>

lemma rerun_page_loop:
  assumes skip: "skipAlreadyProcessed cfg" and path: "checkpointPath cfg \<noteq> []"
    and bs: "0 < updateBatchSize cfg"
    and disp: "apply_mode cfg \<longrightarrow> 0 < updateConcurrency cfg"
  shows "page_loop n cfg hc1 jb tok s1 = Some (Inr s1f) \<Longrightarrow>
     stored_ids cfg s1 \<subseteq> set (processed s1) \<Longrightarrow>
     set (processed s1) \<subseteq> set (processed s2) \<Longrightarrow>
     stored_ids cfg s1f \<subseteq> set (processed s2) \<Longrightarrow>
     \<exists>s2f. page_loop n cfg hc2 jb tok s2 = Some (Inr s2f)
       \<and> hs_calls s2f = hs_calls s2 \<and> checkpoint_file s2f = checkpoint_file s2
       \<and> csv_file s2f = csv_file s2
       \<and> totalAttempted s2f = totalAttempted s2 \<and> totalUpdated s2f = totalUpdated s2
       \<and> errors s2f = errors s2
       \<and> totalFetched s2f = totalFetched s2 + length (row_stream n (pageSize cfg) jb tok)
       \<and> totalSkipped s2f = totalSkipped s2
            + length (filter (\<lambda>r. row_id cfg r \<noteq> []) (row_stream n (pageSize cfg) jb tok))"
proof (induction n arbitrary: tok s1 s2)
  case 0
  then show ?case by simp
next
  case (Suc n)
  show ?case
  proof (cases "fetchBigQueryPage jb tok (pageSize cfg)")
    case (Inl e)
    then show ?thesis using Suc.prems(1) by simp
  next
    case (Inr resp)
    obtain rows "next" where resp: "resp = (rows, next)" by (cases resp)
    have fetch: "fetchBigQueryPage jb tok (pageSize cfg) = Inr (rows, next)"
      using Inr resp by simp
    let ?t1 = "s1\<lparr>totalFetched := totalFetched s1 + length rows\<rparr>"
    let ?t2 = "s2\<lparr>totalFetched := totalFetched s2 + length rows\<rparr>"
    show ?thesis
    proof (cases "rows = []")
      case True
      then have "page_loop (Suc n) cfg hc2 jb tok s2 = Some (Inr s2)" using fetch by simp
      then show ?thesis using fetch True by simp
    next
      case False
      let ?sc1 = "build_updates cfg rows ?t1" and ?sc2 = "build_updates cfg rows ?t2"
      have t1: "stored_ids cfg ?t1 = stored_ids cfg s1" "processed ?t1 = processed s1"
        and t2: "processed ?t2 = processed s2"
        by (simp_all add: stored_ids_def)
      obtain st3 where pp: "process_page cfg hc1 rows ?t1 = Some st3"
        and pr: "set (processed st3) = set (processed (fst ?sc1)) \<union>
          (if apply_mode cfg \<and> updateConcurrency cfg = 0 then {} else fst ` set (snd ?sc1))"
        and sto: "(if snd ?sc1 \<noteq> []
           then stored_ids cfg st3 = (if checkpointPath cfg = [] then {} else set (processed st3))
           else st3 = fst ?sc1)"
        using process_page_effect [OF bs, of hc1 rows ?t1] by blast
      have pr': "set (processed st3) = set (processed (fst ?sc1)) \<union> fst ` set (snd ?sc1)"
        using pr disp by (cases "apply_mode cfg") auto
      have inv3: "stored_ids cfg st3 \<subseteq> set (processed st3)"
        using process_page_inv(2) [OF pp] t1 Suc.prems(2) by simp
      have eq1: "page_loop (Suc n) cfg hc1 jb tok s1 =
          (if next = None then Some (Inr st3) else page_loop n cfg hc1 jb next st3)"
        using page_loop_page [OF fetch False pp] by simp
      have rest: "stored_ids cfg st3 \<subseteq> stored_ids cfg s1f"
      proof (cases "next = None")
        case True
        then have "s1f = st3" using eq1 Suc.prems(1) by (simp del: page_loop.simps)
        then show ?thesis by simp
      next
        case more: False
        have "page_loop (Suc n) cfg hc1 jb tok s1 = page_loop n cfg hc1 jb next st3"
          using eq1 more by (simp del: page_loop.simps)
        then have "page_loop n cfg hc1 jb next st3 = Some (Inr s1f)"
          using Suc.prems(1) by (simp del: page_loop.simps)
        then show ?thesis using page_loop_first_run [OF bs disp _ inv3] by blast
      qed
      have enq: "fst ` set (snd ?sc1) \<subseteq> set (processed s2)"
      proof (cases "snd ?sc1 = []")
        case True
        then show ?thesis by simp
      next
        case False
        then have "stored_ids cfg st3 = set (processed st3)" using sto path by simp
        then show ?thesis using pr' rest Suc.prems(4) by blast
      qed
      have h2: "set (processed (fst (?t1, []))) \<subseteq> set (processed (fst (?t2, [])))"
        using Suc.prems(3) by simp
      have h3: "fst ` set (snd (fold (build_update cfg) rows (?t1, [])))
          \<subseteq> set (processed (fst (?t2, [])))"
        using enq by (simp add: build_updates_def)
      note sim = scan_rerun [OF skip h2 h3]
      from sim have b2: "snd ?sc2 = []"
        and k2: "totalSkipped (fst ?sc2) = totalSkipped s2 + length (filter (\<lambda>r. row_id cfg r \<noteq> []) rows)"
        and p12: "set (processed (fst ?sc1)) \<subseteq> set (processed (fst ?sc2))"
        by (simp_all add: build_updates_def)
      have pp2: "process_page cfg hc2 rows ?t2 = Some (fst ?sc2)"
        using b2 by (simp add: process_page_def Let_def wave_loop_done)
      have eq2: "page_loop (Suc n) cfg hc2 jb tok s2 =
          (if next = None then Some (Inr (fst ?sc2)) else page_loop n cfg hc2 jb next (fst ?sc2))"
        using page_loop_page [OF fetch False pp2] by simp
      have m2: "set (processed s2) \<subseteq> set (processed (fst ?sc2))"
        using build_updates_frame(9) [of ?t2 cfg rows] t2 by simp
      show ?thesis
      proof (cases "next = None")
        case True
        then have "page_loop (Suc n) cfg hc2 jb tok s2 = Some (Inr (fst ?sc2))"
          using eq2 by (simp del: page_loop.simps)
        then show ?thesis using k2 fetch True False
          by (simp add: build_updates_frame del: page_loop.simps)
      next
        case more: False
        have r1: "page_loop n cfg hc1 jb next st3 = Some (Inr s1f)"
          using eq1 more Suc.prems(1) by (simp del: page_loop.simps)
        have sub: "set (processed st3) \<subseteq> set (processed (fst ?sc2))"
          using pr' p12 enq m2 by blast
        have fut: "stored_ids cfg s1f \<subseteq> set (processed (fst ?sc2))"
          using Suc.prems(4) m2 by blast
        obtain s2f where r2: "page_loop n cfg hc2 jb next (fst ?sc2) = Some (Inr s2f)"
          and f: "hs_calls s2f = hs_calls (fst ?sc2)" "checkpoint_file s2f = checkpoint_file (fst ?sc2)"
            "csv_file s2f = csv_file (fst ?sc2)"
            "totalAttempted s2f = totalAttempted (fst ?sc2)" "totalUpdated s2f = totalUpdated (fst ?sc2)"
            "errors s2f = errors (fst ?sc2)"
            "totalFetched s2f = totalFetched (fst ?sc2) + length (row_stream n (pageSize cfg) jb next)"
            "totalSkipped s2f = totalSkipped (fst ?sc2)
               + length (filter (\<lambda>r. row_id cfg r \<noteq> []) (row_stream n (pageSize cfg) jb next))"
          using Suc.IH [OF r1 inv3 sub fut] by blast
        have "page_loop (Suc n) cfg hc2 jb tok s2 = Some (Inr s2f)"
          using eq2 more r2 by (simp del: page_loop.simps)
        moreover have "row_stream (Suc n) (pageSize cfg) jb tok
            = rows @ row_stream n (pageSize cfg) jb next"
          using fetch False more by auto
        ultimately show ?thesis using f k2
          by (simp add: build_updates_frame del: page_loop.simps row_stream.simps)
      qed
    qed
  qed
qed

lemma sync_as_page_loop:
  assumes "syncHubSpotPropertiesFromBigQuery n cfg world = Some (Inr st1)"
  shows "\<exists>hc bq query jb. hubspotClient cfg = Some hc \<and> bigqueryClient cfg = Some bq
     \<and> (if endsWith (trim (sql cfg)) (js ''.sql'') then sql_files world (sql cfg)
         else Some (sql cfg)) = Some query
     \<and> createQueryJob bq query = Inr jb
     \<and> (\<forall>w. sql_files w = sql_files world \<longrightarrow>
           syncHubSpotPropertiesFromBigQuery n cfg w
             = page_loop n cfg hc jb None (initial_state cfg w))"
  using assms
  by (auto simp: syncHubSpotPropertiesFromBigQuery_def
      split: if_splits option.splits sum.splits)

text \<open>
  Claim C1, as stated, fails: when a page holds the same identifier twice, the first run
  updates it twice, the second run skips both rows, and its skipped count is 2 while the
  first run saw one distinct identifier that is not blank-only.
\<close>

theorem rerun_idempotency_counterexample:
  "syncHubSpotPropertiesFromBigQuery (Suc 0) (scenario_config True ok_client dup_page_job) world0
     = Some (Inr dup_first_state)
   \<and> syncHubSpotPropertiesFromBigQuery (Suc 0) (scenario_config True ok_client dup_page_job)
       dup_first_state = Some (Inr dup_second_state)
   \<and> totalSkipped dup_second_state = 2
   \<and> distinct_non_blank_only_ids (scenario_config True ok_client dup_page_job)
       (row_stream (Suc 0) (pageSize (scenario_config True ok_client dup_page_job)) dup_page_job None)
       = [js ''1'']
   \<and> totalSkipped dup_second_state
       \<noteq> length (distinct_non_blank_only_ids (scenario_config True ok_client dup_page_job)
           (row_stream (Suc 0) (pageSize (scenario_config True ok_client dup_page_job))
              dup_page_job None))"
proof -
  let ?cfg = "scenario_config True ok_client dup_page_job"
  have r1: "syncHubSpotPropertiesFromBigQuery (Suc 0) ?cfg world0 = Some (Inr dup_first_state)"
    by (simp add: sync_eval dup_page_job_def dup_first_state_def us_update_def us_updated_row_def
        run_eval example_eval mapper_eval Let_def)
  have r2: "syncHubSpotPropertiesFromBigQuery (Suc 0) ?cfg dup_first_state = Some (Inr dup_second_state)"
    by (simp add: sync_eval dup_page_job_def dup_first_state_def dup_second_state_def
        us_update_def us_updated_row_def run_eval example_eval mapper_eval Let_def)
  have k: "totalSkipped dup_second_state = 2" by (simp add: dup_second_state_def)
  have d: "distinct_non_blank_only_ids ?cfg (row_stream (Suc 0) (pageSize ?cfg) dup_page_job None)
      = [js ''1'']"
    by (simp add: distinct_non_blank_only_ids_def dup_page_job_def fetchBigQueryPage_def
        example_eval mapper_eval)
  show ?thesis using r1 r2 k d by simp
qed

text \<open>
  Claim C1, amended. Idempotency across reruns, for a run that skips processed
  identifiers, has a checkpoint path, a positive wave size and, in apply mode, at least
  one worker: when a first run has returned, a second run of the same configuration that
  starts from the files of the first returns as well, issues no update call (none is
  attempted, none recorded as updated or failed), fetches the same number of rows, and
  its skipped count is the number of rows of the stream that have a non-blank
  identifier, every occurrence counted and blank-only rows included, which is the sum of
  the skipped and attempted counts of the first run.
\<close>

theorem rerun_idempotency:
  assumes "skipAlreadyProcessed cfg" and "checkpointPath cfg \<noteq> []"
    and "0 < updateBatchSize cfg" and "apply_mode cfg \<longrightarrow> 0 < updateConcurrency cfg"
    and "syncHubSpotPropertiesFromBigQuery n cfg world = Some (Inr st1)"
  shows "\<exists>st2. syncHubSpotPropertiesFromBigQuery n cfg st1 = Some (Inr st2)
     \<and> hs_calls st2 = hs_calls st1
     \<and> totalAttempted st2 = 0 \<and> totalUpdated st2 = 0 \<and> errors st2 = []
     \<and> totalFetched st2 = totalFetched st1
     \<and> totalSkipped st2 = totalSkipped st1 + totalAttempted st1
     \<and> (\<forall>bq query jb. bigqueryClient cfg = Some bq
           \<and> (if endsWith (trim (sql cfg)) (js ''.sql'') then sql_files world (sql cfg)
               else Some (sql cfg)) = Some query
           \<and> createQueryJob bq query = Inr jb \<longrightarrow>
           totalSkipped st2
             = length (filter (\<lambda>r. row_id cfg r \<noteq> []) (row_stream n (pageSize cfg) jb None)))"
proof -
  obtain hc bq query jb where bq: "bigqueryClient cfg = Some bq"
    and q: "(if endsWith (trim (sql cfg)) (js ''.sql'') then sql_files world (sql cfg)
         else Some (sql cfg)) = Some query"
    and j: "createQueryJob bq query = Inr jb"
    and eq: "\<forall>w. sql_files w = sql_files world \<longrightarrow>
           syncHubSpotPropertiesFromBigQuery n cfg w
             = page_loop n cfg hc jb None (initial_state cfg w)"
    using sync_as_page_loop [OF assms(5)] by blast
  let ?i1 = "initial_state cfg world" and ?i2 = "initial_state cfg st1"
  let ?rows = "row_stream n (pageSize cfg) jb None"
  have r1: "page_loop n cfg hc jb None ?i1 = Some (Inr st1)"
    using eq assms(5) by simp
  have inv1: "stored_ids cfg ?i1 \<subseteq> set (processed ?i1)"
    by (simp add: initial_state_stored)
  have first: "sql_files st1 = sql_files ?i1" "stored_ids cfg ?i1 \<subseteq> stored_ids cfg st1"
    "totalSkipped st1 + totalAttempted st1
       = totalSkipped ?i1 + totalAttempted ?i1 + length (filter (\<lambda>r. row_id cfg r \<noteq> []) ?rows)"
    using page_loop_first_run [OF assms(3,4) r1 inv1] by simp_all
  have f1: "totalFetched st1 = length ?rows"
    using page_loop_fetched [OF assms(3) r1] by (simp add: initial_state_frame)
  have p2: "set (processed ?i2) = stored_ids cfg st1"
    by (simp add: initial_state_frame set_loadCheckpoint)
  have sub: "set (processed ?i1) \<subseteq> set (processed ?i2)"
    using first(2) p2 by (simp add: initial_state_stored)
  have fut: "stored_ids cfg st1 \<subseteq> set (processed ?i2)" using p2 by simp
  obtain st2 where r2: "page_loop n cfg hc jb None ?i2 = Some (Inr st2)"
    and f: "hs_calls st2 = hs_calls ?i2" "totalAttempted st2 = totalAttempted ?i2"
      "totalUpdated st2 = totalUpdated ?i2" "errors st2 = errors ?i2"
      "totalFetched st2 = totalFetched ?i2 + length ?rows"
      "totalSkipped st2 = totalSkipped ?i2 + length (filter (\<lambda>r. row_id cfg r \<noteq> []) ?rows)"
    using rerun_page_loop [OF assms(1-4) r1 inv1 sub fut, of hc] by blast
  have run2: "syncHubSpotPropertiesFromBigQuery n cfg st1 = Some (Inr st2)"
    using eq first(1) r2 by (simp add: initial_state_frame)
  have k: "totalSkipped st2 = length (filter (\<lambda>r. row_id cfg r \<noteq> []) ?rows)"
    using f(6) by (simp add: initial_state_frame)
  have stream: "\<forall>bq' query' jb'. bigqueryClient cfg = Some bq'
           \<and> (if endsWith (trim (sql cfg)) (js ''.sql'') then sql_files world (sql cfg)
               else Some (sql cfg)) = Some query'
           \<and> createQueryJob bq' query' = Inr jb' \<longrightarrow>
           totalSkipped st2
             = length (filter (\<lambda>r. row_id cfg r \<noteq> []) (row_stream n (pageSize cfg) jb' None))"
    using bq q j k by auto
  have "hs_calls st2 = hs_calls st1" "totalAttempted st2 = 0" "totalUpdated st2 = 0"
    "errors st2 = []" "totalFetched st2 = totalFetched st1"
    "totalSkipped st2 = totalSkipped st1 + totalAttempted st1"
    using f f1 k first(3) by (simp_all add: initial_state_frame)
  then show ?thesis using run2 stream by blast
qed

theorem rerun_idempotency_witness:
  "skipAlreadyProcessed (scenario_config True ok_client one_page_job)
   \<and> checkpointPath (scenario_config True ok_client one_page_job) \<noteq> []
   \<and> 0 < updateBatchSize (scenario_config True ok_client one_page_job)
   \<and> apply_mode (scenario_config True ok_client one_page_job)
   \<and> 0 < updateConcurrency (scenario_config True ok_client one_page_job)
   \<and> (\<exists>st1 st2.
         syncHubSpotPropertiesFromBigQuery (Suc 0) (scenario_config True ok_client one_page_job)
           world_with_checkpoint = Some (Inr st1)
         \<and> syncHubSpotPropertiesFromBigQuery (Suc 0) (scenario_config True ok_client one_page_job)
             st1 = Some (Inr st2)
         \<and> hs_calls st2 = hs_calls st1 \<and> totalUpdated st2 = 0
         \<and> totalSkipped st2 = totalSkipped st1 + totalAttempted st1)"
proof -
  let ?cfg = "scenario_config True ok_client one_page_job"
  have h1: "skipAlreadyProcessed ?cfg" and h2: "checkpointPath ?cfg \<noteq> []"
    and h3: "0 < updateBatchSize ?cfg" and h4: "apply_mode ?cfg \<longrightarrow> 0 < updateConcurrency ?cfg"
    by (simp_all add: scenario_config_def js_def)
  obtain st1 where r: "syncHubSpotPropertiesFromBigQuery (Suc 0) ?cfg world_with_checkpoint = Some (Inr st1)"
    using example_run_returns by blast
  have h5: "apply_mode ?cfg" and h6: "0 < updateConcurrency ?cfg"
    by (simp_all add: scenario_config_def)
  show ?thesis
    using rerun_idempotency [OF h1 h2 h3 h4 r] h1 h2 h3 h5 h6 r by blast
qed

end
